theory Spec2Isabelle
  imports Main "HOL-Library.Product_Lexorder" "HOL-Library.AList" "HOL-Library.Multiset"
begin

section \<open>Errors\<close>

text \<open>
  The exception classes of \<^verbatim>\<open>chess_rankings_service.py\<close>, together with the two built-in
  exceptions that the code can let escape: \<^verbatim>\<open>ValueError\<close> (raised by \<^verbatim>\<open>datetime(...)\<close> for
  an impossible date, by a tuple unpacking of the wrong length and by
  \<^verbatim>\<open>ThreadPoolExecutor(max_workers=0)\<close>) and \<^verbatim>\<open>OverflowError\<close> (raised by \<^verbatim>\<open>datetime(...)\<close>
  for an argument that does not fit a C \<^verbatim>\<open>int\<close>, and by a date subtraction that would leave
  the range of \<^verbatim>\<open>datetime.date\<close>). The message and URL strings of the exceptions are not
  modelled; the username carried by two of them is.
\<close>

datatype error =
    APIError
  | PlayerNotFoundError
  | RatingHistoryNotFoundError string
  | ClassicalRatingNotFoundError string
  | ValueError
  | OverflowError

text \<open>The subclasses of \<^verbatim>\<open>ChessRankingsServiceError\<close>: what \<^verbatim>\<open>except ChessRankingsServiceError\<close> catches.\<close>

fun is_ChessRankingsServiceError :: "error \<Rightarrow> bool" where
  "is_ChessRankingsServiceError APIError = True"
| "is_ChessRankingsServiceError PlayerNotFoundError = True"
| "is_ChessRankingsServiceError (RatingHistoryNotFoundError u) = True"
| "is_ChessRankingsServiceError (ClassicalRatingNotFoundError u) = True"
| "is_ChessRankingsServiceError ValueError = False"
| "is_ChessRankingsServiceError OverflowError = False"

section \<open>Calendar dates\<close>

text \<open>
  A \<^verbatim>\<open>datetime.date\<close> is a (year, month, day) triple of the proleptic Gregorian calendar
  with \<^verbatim>\<open>MINYEAR = 1\<close> and \<^verbatim>\<open>MAXYEAR = 9999\<close>. Python compares dates by year, then month,
  then day, which is the lexicographic order on triples.
\<close>

type_synonym date = "int \<times> int \<times> int"

definition is_leap :: "int \<Rightarrow> bool" where
  "is_leap y \<longleftrightarrow> y mod 4 = 0 \<and> (y mod 100 \<noteq> 0 \<or> y mod 400 = 0)"

definition days_in_month :: "int \<Rightarrow> int \<Rightarrow> int" where
  "days_in_month y m =
     (if m = 2 then (if is_leap y then 29 else 28)
      else if m = 4 \<or> m = 6 \<or> m = 9 \<or> m = 11 then 30
      else 31)"

fun valid_date :: "date \<Rightarrow> bool" where
  "valid_date (y, m, d) \<longleftrightarrow>
     1 \<le> y \<and> y \<le> 9999 \<and> 1 \<le> m \<and> m \<le> 12 \<and> 1 \<le> d \<and> d \<le> days_in_month y m"

text \<open>
  \<^verbatim>\<open>datetime(year, month, day).date()\<close>. CPython first converts the three arguments to C
  \<^verbatim>\<open>int\<close>s (32 bits) and raises \<^verbatim>\<open>OverflowError\<close> when one does not fit; it then raises
  \<^verbatim>\<open>ValueError\<close> when the fields are out of the range of the calendar.
\<close>

definition fits_c_int :: "int \<Rightarrow> bool" where
  "fits_c_int n \<longleftrightarrow> - 2147483648 \<le> n \<and> n \<le> 2147483647"

definition mk_date :: "int \<Rightarrow> int \<Rightarrow> int \<Rightarrow> error + date" where
  "mk_date y m d =
     (if \<not> (fits_c_int y \<and> fits_c_int m \<and> fits_c_int d) then Inl OverflowError
      else if valid_date (y, m, d) then Inr (y, m, d)
      else Inl ValueError)"

definition date_min :: date where
  "date_min = (1, 1, 1)"

text \<open>The calendar day before and after a date.\<close>

fun prev_day :: "date \<Rightarrow> date" where
  "prev_day (y, m, d) =
     (if 1 < d then (y, m, d - 1)
      else if 1 < m then (y, m - 1, days_in_month y (m - 1))
      else (y - 1, 12, 31))"


text \<open>
  \<^verbatim>\<open>d - timedelta(days=n)\<close> for \<open>n \<ge> 0\<close>: the date \<open>n\<close> days before \<open>d\<close>, an
  \<^verbatim>\<open>OverflowError\<close> when that day would precede \<^verbatim>\<open>date.min\<close>.
\<close>

fun sub_days :: "date \<Rightarrow> nat \<Rightarrow> error + date" where
  "sub_days d 0 = Inr d"
| "sub_days d (Suc n) = (if d = date_min then Inl OverflowError else sub_days (prev_day d) n)"

text \<open>A list comprehension whose element expression may raise: the first exception wins.\<close>

fun map_raise :: "('a \<Rightarrow> error + 'b) \<Rightarrow> 'a list \<Rightarrow> error + 'b list" where
  "map_raise f [] = Inr []"
| "map_raise f (x # xs) =
     (case f x of
        Inl e \<Rightarrow> Inl e
      | Inr y \<Rightarrow> (case map_raise f xs of Inl e \<Rightarrow> Inl e | Inr ys \<Rightarrow> Inr (y # ys)))"

text \<open>\<^verbatim>\<open>[today - timedelta(days=i) for i in range(30, -1, -1)]\<close>\<close>

definition last_30_days :: "date \<Rightarrow> error + date list" where
  "last_30_days today = map_raise (sub_days today) (rev [0..<31])"

section \<open>The date-to-rating mapping\<close>

text \<open>
  A Python \<^verbatim>\<open>dict\<close> keeps its keys in insertion order and an assignment to an existing key
  replaces the value in place: an association list under \<^const>\<open>AList.update\<close>, read with
  \<^const>\<open>map_of\<close>.
\<close>

type_synonym rating_dict = "(date \<times> int) list"

text \<open>\<^verbatim>\<open>rating_dict.keys()\<close>, as a set.\<close>

definition dict_keys :: "rating_dict \<Rightarrow> date set" where
  "dict_keys rating_dict = set (map fst rating_dict)"

text \<open>
  The loop of \<^verbatim>\<open>_build_date_to_rating_mapping\<close>. A point is a \<^verbatim>\<open>List[int]\<close>; unpacking it into
  four names raises \<^verbatim>\<open>ValueError\<close> unless it has exactly four elements.
\<close>

fun build_loop :: "int list list \<Rightarrow> rating_dict \<Rightarrow> error + rating_dict" where
  "build_loop [] rating_dict = Inr rating_dict"
| "build_loop (point # rest) rating_dict =
     (case point of
        [year, month, day, rating] \<Rightarrow>
          (case mk_date year (month + 1) day of
             Inl e \<Rightarrow> Inl e
           | Inr date \<Rightarrow> build_loop rest (AList.update date rating rating_dict))
      | _ \<Rightarrow> Inl ValueError)"

definition build_date_to_rating_mapping :: "int list list \<Rightarrow> error + rating_dict" where
  "build_date_to_rating_mapping classical_history = build_loop classical_history []"

text \<open>Python's \<^verbatim>\<open>max\<close> of a non-empty list: the running maximum, replaced by a strictly larger item.\<close>

fun max_of :: "date list \<Rightarrow> date" where
  "max_of (x # xs) = fold (\<lambda>y m. if m < y then y else m) xs x"

definition get_first_rating_before_date :: "rating_dict \<Rightarrow> date \<Rightarrow> int option" where
  "get_first_rating_before_date rating_dict target_date =
     (let dates_before_target = filter (\<lambda>date. date < target_date) (map fst rating_dict)
      in if dates_before_target \<noteq> []
         then map_of rating_dict (max_of dates_before_target)
         else None)"

section \<open>The 31-day window\<close>

text \<open>The loop of \<^verbatim>\<open>_generate_last_30_days_ratings\<close>, carrying \<^verbatim>\<open>last_known_rating\<close>.\<close>

fun fill :: "rating_dict \<Rightarrow> date list \<Rightarrow> int option \<Rightarrow> int option list" where
  "fill rating_dict [] last_known_rating = []"
| "fill rating_dict (date # rest) last_known_rating =
     (let last_known_rating' =
            (if map_of rating_dict date \<noteq> None then map_of rating_dict date
             else last_known_rating)
      in last_known_rating' # fill rating_dict rest last_known_rating')"

text \<open>
  \<^verbatim>\<open>_generate_last_30_days_ratings\<close>, with the reading of the clock
  (\<^verbatim>\<open>datetime.now().date()\<close>) as the parameter \<open>today\<close>.
\<close>

definition generate_last_30_days_ratings :: "rating_dict \<Rightarrow> date \<Rightarrow> error + int option list" where
  "generate_last_30_days_ratings rating_dict today =
     (case last_30_days today of
        Inl e \<Rightarrow> Inl e
      | Inr days \<Rightarrow>
          (let start_date = hd days;
               last_known_rating =
                 (case map_of rating_dict start_date of
                    None \<Rightarrow> get_first_rating_before_date rating_dict start_date
                  | Some r \<Rightarrow> Some r)
           in Inr (fill rating_dict days last_known_rating)))"

section \<open>The data provider\<close>

text \<open>
  What \<^verbatim>\<open>requests.get(url)\<close>, \<^verbatim>\<open>raise_for_status()\<close> and \<^verbatim>\<open>response.json()\<close> produce: an
  exception of the \<^verbatim>\<open>requests\<close> library, or the decoded body.
\<close>

datatype 'a http = RequestFailed | Body 'a

fun fetch_json :: "'a http \<Rightarrow> error + 'a" where
  "fetch_json RequestFailed = Inl APIError"
| "fetch_json (Body data) = Inr data"

text \<open>
  The JSON objects of the two endpoints, with the keys the code reads. A field is \<open>None\<close>
  when the key is missing, so that \<^verbatim>\<open>obj.get(key)\<close> is the field itself. The body as a
  whole is \<open>None\<close> when it is the JSON value \<^verbatim>\<open>null\<close>.
\<close>

record player =
  get_username :: "string option"

record leaderboard =
  get_users :: "player list option"

record variant =
  get_name :: "string option"
  get_points :: "int list list option"

record provider =
  top_players :: "int \<Rightarrow> leaderboard option http"
  rating_history :: "string \<Rightarrow> variant list option http"

section \<open>Leaderboard retrieval\<close>

definition get_top_players_usernames :: "provider \<Rightarrow> int \<Rightarrow> error + string list" where
  "get_top_players_usernames api cnt =
     (case fetch_json (top_players api cnt) of
        Inl e \<Rightarrow> Inl e
      | Inr data \<Rightarrow>
          (case data of
             None \<Rightarrow> Inl PlayerNotFoundError
           | Some d \<Rightarrow>
               (case get_users d of
                  None \<Rightarrow> Inl PlayerNotFoundError
                | Some players \<Rightarrow>
                    if players = [] then Inl PlayerNotFoundError
                    else Inr (List.map_filter
                               (\<lambda>player. case get_username player of
                                   None \<Rightarrow> None
                                 | Some u \<Rightarrow> if u \<noteq> [] then Some u else None)
                               players))))"

section \<open>One player's ratings\<close>

definition get_player_rating_history :: "provider \<Rightarrow> string \<Rightarrow> error + variant list" where
  "get_player_rating_history api username =
     (case fetch_json (rating_history api username) of
        Inl e \<Rightarrow> Inl e
      | Inr data \<Rightarrow>
          (case data of
             None \<Rightarrow> Inl (RatingHistoryNotFoundError username)
           | Some rating_data \<Rightarrow> Inr rating_data))"

fun extract_classical_rating_history :: "variant list \<Rightarrow> string \<Rightarrow> error + int list list" where
  "extract_classical_rating_history [] username = Inl (ClassicalRatingNotFoundError username)"
| "extract_classical_rating_history (v # rest) username =
     (if get_name v = Some ''Classical''
      then Inr (case get_points v of None \<Rightarrow> [] | Some ps \<Rightarrow> ps)
      else extract_classical_rating_history rest username)"

definition get_last_30_days_classical_ratings_for_player ::
  "provider \<Rightarrow> date \<Rightarrow> string \<Rightarrow> error + int option list" where
  "get_last_30_days_classical_ratings_for_player api today username =
     (case get_player_rating_history api username of
        Inl e \<Rightarrow> Inl e
      | Inr rating_data \<Rightarrow>
          (case extract_classical_rating_history rating_data username of
             Inl e \<Rightarrow> Inl e
           | Inr classical_history \<Rightarrow>
               (case build_date_to_rating_mapping classical_history of
                  Inl e \<Rightarrow> Inl e
                | Inr rating_dict \<Rightarrow> generate_last_30_days_ratings rating_dict today)))"

section \<open>The bulk export\<close>

text \<open>A row of the CSV: the username, then the 31 ratings.\<close>

type_synonym row = "string \<times> int option list"

text \<open>
  The loop over \<^verbatim>\<open>as_completed(future_to_username)\<close>. The futures arrive in the order in
  which the tasks finish; \<open>completed\<close> lists their usernames in that order. An exception
  that \<^verbatim>\<open>future.result()\<close> re-raises and the \<^verbatim>\<open>except\<close> clause does not catch leaves the loop.
\<close>

fun collect_rows ::
  "(string \<Rightarrow> error + int option list) \<Rightarrow> string list \<Rightarrow> row list \<Rightarrow> error + row list" where
  "collect_rows task [] data_rows = Inr data_rows"
| "collect_rows task (username # rest) data_rows =
     (case task username of
        Inr player_ratings \<Rightarrow> collect_rows task rest (data_rows @ [(username, player_ratings)])
      | Inl e \<Rightarrow>
          if is_ChessRankingsServiceError e
          then collect_rows task rest (data_rows @ [(username, replicate 31 None)])
          else Inl e)"

text \<open>\<^verbatim>\<open>{username: index for index, username in enumerate(usernames)}\<close>\<close>

definition username_order :: "string list \<Rightarrow> (string \<rightharpoonup> nat)" where
  "username_order usernames =
     fold (\<lambda>(index, username) m. m(username \<mapsto> index)) (enumerate 0 usernames) Map.empty"

text \<open>
  \<^verbatim>\<open>data_rows.sort(key=lambda row: username_order.get(row[0], 0))\<close>. Python's sort is
  stable, as is \<^const>\<open>sort_key\<close>.
\<close>

definition sort_rows :: "string list \<Rightarrow> row list \<Rightarrow> row list" where
  "sort_rows usernames data_rows =
     sort_key (\<lambda>row. case username_order usernames (fst row) of None \<Rightarrow> 0 | Some i \<Rightarrow> i) data_rows"

text \<open>
  \<^verbatim>\<open>generate_rating_csv_for_top_50_classical_players\<close>. The result records the usernames
  whose tasks were submitted to the pool, and either the exception that ended the call or
  the rows handed to the CSV writer. Writing the file and its header line are left out.
  Every task reads the clock on the same day \<open>today\<close>.
\<close>

record run =
  submitted :: "string list"
  outcome :: "error + row list"

definition generate_rating_csv_for_top_50_classical_players ::
  "provider \<Rightarrow> date \<Rightarrow> string list \<Rightarrow> run" where
  "generate_rating_csv_for_top_50_classical_players api today completed =
     (case get_top_players_usernames api 50 of
        Inl e \<Rightarrow> \<lparr>submitted = [], outcome = Inl e\<rparr>
      | Inr usernames \<Rightarrow>
          (case last_30_days today of
             Inl e \<Rightarrow> \<lparr>submitted = [], outcome = Inl e\<rparr>
           | Inr date_range \<Rightarrow>
               (let max_workers = min 10 (int (length usernames))
                in if max_workers \<le> 0 then \<lparr>submitted = [], outcome = Inl ValueError\<rparr>
                   else \<lparr>submitted = usernames,
                         outcome =
                           (case collect_rows
                                   (get_last_30_days_classical_ratings_for_player api today)
                                   completed [] of
                              Inl e \<Rightarrow> Inl e
                            | Inr data_rows \<Rightarrow> Inr (sort_rows usernames data_rows))\<rparr>)))"

section \<open>Auxiliary definitions for the proofs\<close>

text \<open>The 31 dates ending at \<open>today\<close>, written without the overflow check.\<close>

definition window :: "date \<Rightarrow> date list" where
  "window today = map (\<lambda>i. (prev_day ^^ i) today) (rev [0..<31])"

text \<open>
  The vocabulary of the claim about \<^verbatim>\<open>_build_date_to_rating_mapping\<close>: an observation is well
  formed when it unpacks into four numbers whose year, month + 1 and day are a date of the
  calendar; \<open>last_write h date\<close> is the rating of the last observation of \<open>h\<close> that falls on
  \<open>date\<close>.
\<close>

definition well_formed_point :: "int list \<Rightarrow> bool" where
  "well_formed_point point =
     (case point of [year, month, day, rating] \<Rightarrow> valid_date (year, month + 1, day) | _ \<Rightarrow> False)"

definition point_date :: "int list \<Rightarrow> date" where
  "point_date point = (point ! 0, point ! 1 + 1, point ! 2)"

definition point_rating :: "int list \<Rightarrow> int" where
  "point_rating point = point ! 3"

definition last_write :: "int list list \<Rightarrow> date \<Rightarrow> int option" where
  "last_write h dt =
     (let ps = filter (\<lambda>p. point_date p = dt) h
      in if ps = [] then None else Some (point_rating (last ps)))"

text \<open>
  The exception that an observation raises when it is not well formed: the
  \<^verbatim>\<open>ValueError\<close> of the unpacking or of the calendar, or the \<^verbatim>\<open>OverflowError\<close> of an argument
  of \<^verbatim>\<open>datetime(...)\<close> outside the range of a C \<^verbatim>\<open>int\<close>.
\<close>

definition observation_error :: "int list \<Rightarrow> error" where
  "observation_error point =
     (case point of
        [year, month, day, rating] \<Rightarrow>
          if fits_c_int year \<and> fits_c_int (month + 1) \<and> fits_c_int day then ValueError
          else OverflowError
      | _ \<Rightarrow> ValueError)"

text \<open>The outcome of a task that the \<^verbatim>\<open>except\<close> clause of the bulk export does not catch.\<close>

definition uncaught :: "error + int option list \<Rightarrow> bool" where
  "uncaught result =
     (case result of Inl e \<Rightarrow> \<not> is_ChessRankingsServiceError e | Inr player_ratings \<Rightarrow> False)"

text \<open>
  The row the bulk export writes for a username: the ratings of the player, or 31 absent
  entries when the player's computation raised. \<open>order_key\<close> is the sort key of the export.
\<close>

definition row_of :: "(string \<Rightarrow> error + int option list) \<Rightarrow> string \<Rightarrow> row" where
  "row_of task username =
     (username, case task username of Inr player_ratings \<Rightarrow> player_ratings
                | Inl e \<Rightarrow> replicate 31 None)"

definition order_key :: "string list \<Rightarrow> row \<Rightarrow> nat" where
  "order_key usernames r = (case username_order usernames (fst r) of None \<Rightarrow> 0 | Some i \<Rightarrow> i)"

section \<open>Lookup of the most recent earlier rating\<close>

lemma fold_running_max: "fold (\<lambda>y m. if m < y then y else m) xs (x::date) = Max (set (x # xs))"
proof -
  have "(\<lambda>y m. if m < y then y else m) = (max :: date \<Rightarrow> date \<Rightarrow> date)"
    by (auto simp: fun_eq_iff max_def)
  then show ?thesis by (simp only: Max.set_eq_fold)
qed

lemma max_of_Max: "xs \<noteq> [] \<Longrightarrow> max_of xs = Max (set xs)"
  by (cases xs) (simp_all add: fold_running_max del: set_simps)

lemma max_of_in: "xs \<noteq> [] \<Longrightarrow> max_of xs \<in> set xs"
  using Max_in [of "set xs"] by (simp add: max_of_Max)

lemma max_of_ge: "x \<in> set xs \<Longrightarrow> x \<le> max_of xs"
  using Max_ge [of "set xs" x] by (cases "xs = []") (simp_all add: max_of_Max)

lemma in_keys_lookup: "d \<in> dict_keys rd \<Longrightarrow> \<exists>r. map_of rd d = Some r"
  unfolding dict_keys_def by (metis map_of_eq_None_iff not_Some_eq set_map)

lemma lookup_in_keys: "map_of rd d = Some r \<Longrightarrow> d \<in> dict_keys rd"
  unfolding dict_keys_def by (metis map_of_eq_None_iff option.distinct(1) set_map)

lemma lookup_None_iff: "(map_of rd d = None) = (d \<notin> dict_keys rd)"
  unfolding dict_keys_def by (simp add: map_of_eq_None_iff)

lemma before_set:
  "set (filter (\<lambda>d. d < D) (map fst rd)) = {d \<in> dict_keys rd. d < D}"
  unfolding dict_keys_def by (simp only: set_filter)

lemma first_before_None:
  "(get_first_rating_before_date rd D = None) = (\<forall>d \<in> dict_keys rd. \<not> d < D)"
proof (cases "filter (\<lambda>d. d < D) (map fst rd) = []")
  case True
  then have "{d \<in> dict_keys rd. d < D} = {}"
    by (simp only: before_set [symmetric] set_empty)
  then have "\<forall>d \<in> dict_keys rd. \<not> d < D" by blast
  moreover have "get_first_rating_before_date rd D = None"
    using True by (simp add: get_first_rating_before_date_def)
  ultimately show ?thesis by (simp only: simp_thms)
next
  case False
  let ?ds = "filter (\<lambda>d. d < D) (map fst rd)"
  have "max_of ?ds \<in> set ?ds" using False by (rule max_of_in)
  then have m: "max_of ?ds \<in> dict_keys rd" "max_of ?ds < D"
    by (simp_all only: before_set mem_Collect_eq)
  from m(1) obtain r where "map_of rd (max_of ?ds) = Some r"
    using in_keys_lookup by blast
  with False have "get_first_rating_before_date rd D = Some r"
    by (simp add: get_first_rating_before_date_def Let_def)
  with m show ?thesis by auto
qed

lemma fill_length: "length (fill rd ds c) = length ds"
  by (induction ds arbitrary: c) (simp_all add: Let_def)

lemma fill_forward:
  "0 < i \<Longrightarrow> i < length ds \<Longrightarrow> map_of rd (ds ! i) = None \<Longrightarrow> fill rd ds c ! i = fill rd ds c ! (i - 1)"
proof (induction ds arbitrary: c i)
  case Nil
  then show ?case by simp
next
  case (Cons d ds)
  show ?case
  proof (cases i)
    case 0
    with Cons.prems show ?thesis by simp
  next
    case (Suc j)
    show ?thesis
    proof (cases j)
      case 0
      with Suc Cons.prems show ?thesis
        by (cases ds) (simp_all add: Let_def)
    next
      case (Suc k)
      with \<open>i = Suc j\<close> Cons.prems Cons.IH [of j] show ?thesis
        by (simp add: Let_def)
    qed
  qed
qed

section \<open>The calendar\<close>

lemma days_in_month_bounds: "28 \<le> days_in_month y m \<and> days_in_month y m \<le> 31"
  by (simp add: days_in_month_def)

lemma days_in_month_jan: "days_in_month y 1 = 31"
  by (simp add: days_in_month_def)

lemma days_in_month_dec: "days_in_month y 12 = 31"
  by (simp add: days_in_month_def)

lemma valid_prev_day:
  assumes "valid_date d" and "d \<noteq> date_min"
  shows "valid_date (prev_day d)"
proof -
  obtain y m dd where d: "d = (y, m, dd)" by (cases d) auto
  have b: "28 \<le> days_in_month y (m - 1)" using days_in_month_bounds by blast
  show ?thesis using assms b unfolding d date_min_def
    by (auto simp: days_in_month_dec)
qed


lemma prev_day_less:
  assumes "valid_date d"
  shows "prev_day d < d"
proof -
  obtain y m dd where d: "d = (y, m, dd)" by (cases d) auto
  show ?thesis using assms unfolding d by auto
qed

lemma no_date_between:
  assumes "valid_date d'" and "valid_date d" and "d' < d"
  shows "d' \<le> prev_day d"
proof -
  obtain y m dd where d: "d = (y, m, dd)" by (cases d) auto
  obtain y' m' dd' where d': "d' = (y', m', dd')" by (cases d') auto
  have v: "1 \<le> m" "1 \<le> dd" using assms(2) unfolding d by simp_all
  have v': "1 \<le> m'" "m' \<le> 12" "1 \<le> dd'" "dd' \<le> days_in_month y' m'"
    using assms(1) unfolding d' by simp_all
  have top: "dd' \<le> 31" using v'(4) days_in_month_bounds [of y' m'] by simp
  have lt: "y' < y \<or> (y' = y \<and> m' < m) \<or> (y' = y \<and> m' = m \<and> dd' < dd)"
    using assms(3) unfolding d d' by auto
  show ?thesis
  proof (cases "1 < dd")
    case True
    then show ?thesis using lt unfolding d d' by auto
  next
    case False
    with v have dd: "dd = 1" by simp
    show ?thesis
    proof (cases "1 < m")
      case True
      from lt dd v' have "y' < y \<or> (y' = y \<and> m' < m - 1) \<or> (y' = y \<and> m' = m - 1)"
        by auto
      then show ?thesis
      proof (elim disjE conjE)
        assume "y' < y"
        then show ?thesis using True dd unfolding d d' by simp
      next
        assume "y' = y" "m' < m - 1"
        then show ?thesis using True dd unfolding d d' by simp
      next
        assume "y' = y" "m' = m - 1"
        then show ?thesis using True dd v'(4) unfolding d d' by simp
      qed
    next
      case False
      with v have m: "m = 1" by simp
      from lt dd m v' have "y' < y" by auto
      then show ?thesis using m dd v'(2) top unfolding d d' by auto
    qed
  qed
qed

lemma prev_day_lower:
  assumes "valid_date d" and "(1, 1, k) \<le> d" and "2 \<le> k" and "k \<le> 32"
  shows "d \<noteq> date_min \<and> (1, 1, k - 1) \<le> prev_day d"
proof -
  obtain y m dd where d: "d = (y, m, dd)" by (cases d) auto
  have v: "1 \<le> y" "1 \<le> m" "1 \<le> dd" using assms(1) unfolding d by simp_all
  have ge: "1 < y \<or> (y = 1 \<and> 1 < m) \<or> (y = 1 \<and> m = 1 \<and> k \<le> dd)"
    using assms(2) v unfolding d by auto
  have ne: "d \<noteq> date_min" using ge assms(3) unfolding d date_min_def by auto
  have "(1, 1, k - 1) \<le> prev_day d"
  proof (cases "1 < dd")
    case True
    then show ?thesis using ge unfolding d by auto
  next
    case False
    with v have dd: "dd = 1" by simp
    show ?thesis
    proof (cases "1 < m")
      case True
      from ge have "1 < y \<or> (y = 1 \<and> 2 < m) \<or> (y = 1 \<and> m = 2)" using True by auto
      then show ?thesis
      proof (elim disjE conjE)
        assume "1 < y"
        then show ?thesis using True dd unfolding d by simp
      next
        assume "y = 1" "2 < m"
        then show ?thesis using True dd unfolding d by simp
      next
        assume "y = 1" "m = 2"
        then show ?thesis using dd assms(4) unfolding d by (simp add: days_in_month_jan)
      qed
    next
      case False
      with v have m: "m = 1" by simp
      from ge dd m assms(3) have "1 < y" by auto
      then show ?thesis using m dd unfolding d by auto
    qed
  qed
  with ne show ?thesis by simp
qed

lemma sub_days_funpow:
  "n \<le> 31 \<Longrightarrow> valid_date d \<Longrightarrow> (1, 1, 1 + int n) \<le> d \<Longrightarrow>
     sub_days d n = Inr ((prev_day ^^ n) d) \<and> valid_date ((prev_day ^^ n) d)"
proof (induction n arbitrary: d)
  case 0
  then show ?case by simp
next
  case (Suc n)
  have "d \<noteq> date_min \<and> (1, 1, (1 + int (Suc n)) - 1) \<le> prev_day d"
    using Suc.prems by (intro prev_day_lower) simp_all
  then have ne: "d \<noteq> date_min" and lb: "(1, 1, 1 + int n) \<le> prev_day d" by simp_all
  have v: "valid_date (prev_day d)" using Suc.prems(2) ne by (rule valid_prev_day)
  have "n \<le> 31" using Suc.prems(1) by simp
  from Suc.IH [OF this v lb] ne show ?case
    by (simp add: funpow_swap1)
qed

lemma map_raise_total: "(\<And>x. x \<in> set xs \<Longrightarrow> f x = Inr (g x)) \<Longrightarrow> map_raise f xs = Inr (map g xs)"
  by (induction xs) simp_all

lemma le_date_mono: "(k::int) \<le> k' \<Longrightarrow> (1::int, 1::int, k') \<le> d \<Longrightarrow> (1, 1, k) \<le> d"
  by (cases d) auto

section \<open>The window of dates\<close>

lemma last_30_days_eq:
  assumes "valid_date today" and "(1, 1, 31) \<le> today"
  shows "last_30_days today = Inr (map (\<lambda>i. (prev_day ^^ i) today) (rev [0..<31]))"
  unfolding last_30_days_def
proof (rule map_raise_total)
  fix i assume "i \<in> set (rev [0..<31])"
  then have i: "i \<le> 30" by simp
  then have "(1, 1, 1 + int i) \<le> today"
    using le_date_mono [of "1 + int i" 31 today] assms(2) by simp
  with i assms(1) show "sub_days today i = Inr ((prev_day ^^ i) today)"
    using sub_days_funpow [of i today] by simp
qed

lemma window_valid:
  assumes "valid_date today" and "(1, 1, 31) \<le> today" and "i \<le> 30"
  shows "valid_date ((prev_day ^^ i) today)"
proof -
  have "(1, 1, 1 + int i) \<le> today"
    using le_date_mono [of "1 + int i" 31 today] assms(2,3) by simp
  with assms show ?thesis using sub_days_funpow [of i today] by simp
qed


lemma window_length: "length (window today) = 31"
  by (simp add: window_def)

lemma window_nth: "i < 31 \<Longrightarrow> window today ! i = (prev_day ^^ (30 - i)) today"
  by (simp add: window_def rev_nth)


lemma window_step: "i < 30 \<Longrightarrow> window today ! i = prev_day (window today ! Suc i)"
proof -
  assume i: "i < 30"
  then have "30 - i = Suc (30 - Suc i)" by simp
  then have "(prev_day ^^ (30 - i)) today = prev_day ((prev_day ^^ (30 - Suc i)) today)"
    by (simp only: funpow.simps o_apply)
  with i show ?thesis by (simp add: window_nth)
qed

lemma window_nth_valid:
  assumes "valid_date today" and "(1, 1, 31) \<le> today" and "i < 31"
  shows "valid_date (window today ! i)"
  using assms window_valid [of today "30 - i"] by (simp add: window_nth)


lemma window_less:
  assumes "valid_date today" and "(1, 1, 31) \<le> today" and "i < 30"
  shows "window today ! i < window today ! Suc i"
proof -
  have "valid_date (window today ! Suc i)" using assms by (intro window_nth_valid) simp_all
  then show ?thesis using assms(3) by (simp add: window_step prev_day_less)
qed


lemma generate_eq:
  assumes "valid_date today" and "(1, 1, 31) \<le> today"
  shows "generate_last_30_days_ratings rd today =
           Inr (fill rd (window today)
                 (case map_of rd (hd (window today)) of
                    None \<Rightarrow> get_first_rating_before_date rd (hd (window today))
                  | Some r \<Rightarrow> Some r))"
proof -
  have "last_30_days today = Inr (window today)"
    using last_30_days_eq [OF assms] by (simp only: window_def)
  then show ?thesis
    by (simp add: generate_last_30_days_ratings_def Let_def)
qed

lemma all_le_Suc_Cons:
  "(\<forall>j\<le>Suc k. P ((d # ds) ! j)) = (P d \<and> (\<forall>j\<le>k. P (ds ! j)))"
proof
  assume a: "\<forall>j\<le>Suc k. P ((d # ds) ! j)"
  have "P d" using a [rule_format, of 0] by simp
  moreover have "\<forall>j\<le>k. P (ds ! j)"
  proof (intro allI impI)
    fix j assume "j \<le> k"
    then show "P (ds ! j)" using a [rule_format, of "Suc j"] by simp
  qed
  ultimately show "P d \<and> (\<forall>j\<le>k. P (ds ! j))" by simp
next
  assume b: "P d \<and> (\<forall>j\<le>k. P (ds ! j))"
  show "\<forall>j\<le>Suc k. P ((d # ds) ! j)"
  proof (intro allI impI)
    fix j assume "j \<le> Suc k"
    then show "P ((d # ds) ! j)" using b by (cases j) simp_all
  qed
qed

lemma fill_None_iff:
  "i < length ds \<Longrightarrow>
     (fill rd ds c ! i = None) = (c = None \<and> (\<forall>j\<le>i. ds ! j \<notin> dict_keys rd))"
proof (induction ds arbitrary: c i)
  case Nil
  then show ?case by simp
next
  case (Cons d ds)
  show ?case
  proof (cases i)
    case 0
    then show ?thesis by (auto simp: Let_def lookup_None_iff)
  next
    case (Suc k)
    with Cons.prems have k: "k < length ds" by simp
    show ?thesis
      unfolding Suc all_le_Suc_Cons [of k "\<lambda>x. x \<notin> dict_keys rd"]
      using Cons.IH [OF k] by (auto simp: Let_def lookup_None_iff)
  qed
qed

lemma seed_None_iff:
  "((case map_of rd start of
       None \<Rightarrow> get_first_rating_before_date rd start
     | Some r \<Rightarrow> Some r) = None) = (\<forall>d \<in> dict_keys rd. \<not> d \<le> start)"
proof (cases "map_of rd start")
  case None
  then have "start \<notin> dict_keys rd" by (simp add: lookup_None_iff)
  then have "(\<forall>d \<in> dict_keys rd. \<not> d < start) = (\<forall>d \<in> dict_keys rd. \<not> d \<le> start)"
    by (auto simp: less_le)
  with None show ?thesis by (simp add: first_before_None)
next
  case (Some r)
  then have "start \<in> dict_keys rd" by (rule lookup_in_keys)
  with Some show ?thesis by auto
qed

lemma window_cover:
  assumes "valid_date today" and "(1, 1, 31) \<le> today" and "valid_date d" and "i < 31"
  shows "(d \<le> window today ! i) = (d \<le> window today ! 0 \<or> (\<exists>j\<le>i. d = window today ! j))"
  using assms(4)
proof (induction i)
  case 0
  then show ?case by auto
next
  case (Suc i)
  then have i: "i < 30" by simp
  have vS: "valid_date (window today ! Suc i)"
    using assms(1,2) Suc.prems by (rule window_nth_valid)
  have step: "window today ! i = prev_day (window today ! Suc i)"
    using i by (rule window_step)
  have lt: "window today ! i < window today ! Suc i"
    using assms(1,2) i by (rule window_less)
  have IH: "(d \<le> window today ! i) = (d \<le> window today ! 0 \<or> (\<exists>j\<le>i. d = window today ! j))"
    using Suc.IH i by simp
  have "(d \<le> window today ! Suc i) = (d = window today ! Suc i \<or> d \<le> window today ! i)"
  proof
    assume le: "d \<le> window today ! Suc i"
    show "d = window today ! Suc i \<or> d \<le> window today ! i"
    proof (cases "d = window today ! Suc i")
      case True
      then show ?thesis by simp
    next
      case False
      with le have "d < window today ! Suc i" by simp
      with assms(3) vS have "d \<le> prev_day (window today ! Suc i)" by (rule no_date_between)
      then show ?thesis by (simp add: step)
    qed
  next
    assume "d = window today ! Suc i \<or> d \<le> window today ! i"
    then show "d \<le> window today ! Suc i" using lt by auto
  qed
  also have "\<dots> = (d \<le> window today ! 0 \<or> (\<exists>j\<le>Suc i. d = window today ! j))"
    unfolding IH by (auto simp: le_Suc_eq)
  finally show ?case .
qed

lemma fill_empty: "fill [] ds None = replicate (length ds) None"
  by (induction ds) (simp_all add: Let_def)

text \<open>A concrete window, crossing the end of February of a leap year.\<close>

lemma window_2024_03_10:
  "last_30_days (2024, 3, 10) =
     Inr [(2024, 2, 9), (2024, 2, 10), (2024, 2, 11), (2024, 2, 12), (2024, 2, 13),
          (2024, 2, 14), (2024, 2, 15), (2024, 2, 16), (2024, 2, 17), (2024, 2, 18),
          (2024, 2, 19), (2024, 2, 20), (2024, 2, 21), (2024, 2, 22), (2024, 2, 23),
          (2024, 2, 24), (2024, 2, 25), (2024, 2, 26), (2024, 2, 27), (2024, 2, 28),
          (2024, 2, 29), (2024, 3, 1), (2024, 3, 2), (2024, 3, 3), (2024, 3, 4),
          (2024, 3, 5), (2024, 3, 6), (2024, 3, 7), (2024, 3, 8), (2024, 3, 9),
          (2024, 3, 10)]"
  by code_simp

lemma valid_2024_03_10: "valid_date (2024, 3, 10)" "(1, 1, 31) \<le> (2024 :: int, 3 :: int, 10 :: int)"
  by (simp_all add: days_in_month_def)

section \<open>Claims about the reconstruction\<close>

text \<open>
  Claim C4. For every timeline and date \<open>D\<close>, \<^verbatim>\<open>_get_first_rating_before_date\<close> returns the
  rating stored at the greatest date of the timeline strictly below \<open>D\<close>, and \<open>None\<close>
  when the timeline has no date strictly below \<open>D\<close>. The date whose rating is returned is
  therefore never \<open>D\<close> or later.
\<close>

theorem first_rating_before_date_latest:
  "(if \<exists>d \<in> dict_keys rd. d < D
    then \<exists>d r. d \<in> dict_keys rd \<and> d < D \<and> (\<forall>d' \<in> dict_keys rd. d' < D \<longrightarrow> d' \<le> d)
           \<and> map_of rd d = Some r \<and> get_first_rating_before_date rd D = Some r
    else get_first_rating_before_date rd D = None)"
proof (cases "\<exists>d \<in> dict_keys rd. d < D")
  case False
  then show ?thesis by (simp add: first_before_None)
next
  case True
  let ?ds = "filter (\<lambda>d. d < D) (map fst rd)"
  from True have "set ?ds \<noteq> {}" by (simp only: before_set) blast
  then have ne: "?ds \<noteq> []" by (simp only: set_empty not_False_eq_True)
  let ?m = "max_of ?ds"
  have "?m \<in> set ?ds" using ne by (rule max_of_in)
  then have m: "?m \<in> dict_keys rd" "?m < D"
    by (simp_all only: before_set mem_Collect_eq)
  have ub: "\<forall>d' \<in> dict_keys rd. d' < D \<longrightarrow> d' \<le> ?m"
  proof (intro ballI impI)
    fix d' assume "d' \<in> dict_keys rd" "d' < D"
    then have "d' \<in> set ?ds" by (simp only: before_set mem_Collect_eq)
    then show "d' \<le> ?m" by (rule max_of_ge)
  qed
  from m(1) obtain r where r: "map_of rd ?m = Some r"
    using in_keys_lookup by blast
  have "get_first_rating_before_date rd D = Some r"
    using ne r by (simp add: get_first_rating_before_date_def Let_def)
  with m ub r have "\<exists>d r. d \<in> dict_keys rd \<and> d < D \<and> (\<forall>d' \<in> dict_keys rd. d' < D \<longrightarrow> d' \<le> d)
           \<and> map_of rd d = Some r \<and> get_first_rating_before_date rd D = Some r"
    by blast
  with True show ?thesis by (simp only: if_True)
qed

theorem first_rating_before_date_latest_witness:
  "(\<exists>d \<in> dict_keys [((2024, 1, 15), 1500), ((2024, 1, 20), 1550)]. d < (2024, 1, 18)) \<and>
   get_first_rating_before_date [((2024, 1, 15), 1500), ((2024, 1, 20), 1550)] (2024, 1, 18) = Some 1500 \<and>
   \<not> (\<exists>d \<in> dict_keys [((2024, 1, 15), 1500), ((2024, 1, 20), 1550)]. d < (2024, 1, 15)) \<and>
   get_first_rating_before_date [((2024, 1, 15), 1500), ((2024, 1, 20), 1550)] (2024, 1, 15) = None"
  using first_rating_before_date_latest [of "[((2024, 1, 15), 1500), ((2024, 1, 20), 1550)]" "(2024, 1, 18)"]
        first_rating_before_date_latest [of "[((2024, 1, 15), 1500), ((2024, 1, 20), 1550)]" "(2024, 1, 15)"]
  by (auto simp: dict_keys_def)

text \<open>
  Claim C1 (forward fill). The reconstruction returns 31 ratings for the 31 dates of the
  window, and at every position \<open>i > 0\<close> whose date has no observation in the timeline the
  rating equals the rating at position \<open>i - 1\<close>. The reference date is a reading of the
  clock, a valid date not before 0001-01-31, so that the window exists.
\<close>

theorem forward_fill_invariant:
  assumes "valid_date today" and "(1, 1, 31) \<le> today"
  shows "\<exists>days ratings.
           last_30_days today = Inr days \<and>
           generate_last_30_days_ratings rd today = Inr ratings \<and>
           length ratings = 31 \<and> length days = 31 \<and>
           (\<forall>i. 0 < i \<and> i < 31 \<and> days ! i \<notin> dict_keys rd \<longrightarrow> ratings ! i = ratings ! (i - 1))"
proof -
  have a: "last_30_days today = Inr (window today)"
    using last_30_days_eq [OF assms] by (simp only: window_def)
  show ?thesis
    using a generate_eq [OF assms, of rd]
    by (simp add: fill_length window_length fill_forward lookup_None_iff)
qed

theorem forward_fill_invariant_witness:
  "valid_date (2024, 3, 10) \<and> (1, 1, 31) \<le> (2024 :: int, 3 :: int, 10 :: int) \<and>
   (\<exists>days ratings.
      last_30_days (2024, 3, 10) = Inr days \<and>
      generate_last_30_days_ratings [((2024, 2, 29), 1500), ((2023, 12, 1), 1400)] (2024, 3, 10) = Inr ratings \<and>
      (0 :: nat) < 21 \<and> (21 :: nat) < 31 \<and>
      days ! 21 \<notin> dict_keys [((2024, 2, 29), 1500), ((2023, 12, 1), 1400)] \<and>
      ratings ! 21 = ratings ! 20)"
proof -
  obtain days ratings where
    d: "last_30_days (2024, 3, 10) = Inr days" and
    r: "generate_last_30_days_ratings [((2024, 2, 29), 1500), ((2023, 12, 1), 1400)] (2024, 3, 10) = Inr ratings" and
    f: "\<forall>i. 0 < i \<and> i < 31 \<and> days ! i \<notin> dict_keys [((2024, 2, 29), 1500), ((2023, 12, 1), 1400)]
          \<longrightarrow> ratings ! i = ratings ! (i - 1)"
    using forward_fill_invariant [OF valid_2024_03_10, of "[((2024, 2, 29), 1500), ((2023, 12, 1), 1400)]"] by blast
  have k: "days ! 21 \<notin> dict_keys [((2024, 2, 29), 1500), ((2023, 12, 1), 1400)]"
    using d unfolding window_2024_03_10 by (auto simp: dict_keys_def)
  from f k have "ratings ! 21 = ratings ! 20"
    using f [rule_format, of 21] by simp
  with d r k valid_2024_03_10 show ?thesis by simp
qed



text \<open>
  Claim C3. An entry of the reconstructed window is \<open>None\<close> exactly when the timeline has
  no observation on or before the date of that entry; for the empty timeline all 31
  entries are \<open>None\<close>. The keys of the timeline are \<^verbatim>\<open>datetime.date\<close> objects, hence valid
  dates.
\<close>

theorem entry_absent_iff_no_history:
  assumes "valid_date today" and "(1, 1, 31) \<le> today"
    and "\<forall>d \<in> dict_keys rd. valid_date d"
  shows "\<exists>days ratings.
           last_30_days today = Inr days \<and>
           generate_last_30_days_ratings rd today = Inr ratings \<and>
           length ratings = 31 \<and> length days = 31 \<and>
           (\<forall>i<31. (ratings ! i = None) = (\<forall>d \<in> dict_keys rd. \<not> d \<le> days ! i)) \<and>
           generate_last_30_days_ratings [] today = Inr (replicate 31 None)"
proof -
  let ?W = "window today"
  let ?seed = "case map_of rd (hd ?W) of
                 None \<Rightarrow> get_first_rating_before_date rd (hd ?W) | Some r \<Rightarrow> Some r"
  have a: "last_30_days today = Inr ?W"
    using last_30_days_eq [OF assms(1,2)] by (simp only: window_def)
  have g: "generate_last_30_days_ratings rd today = Inr (fill rd ?W ?seed)"
    using assms(1,2) by (rule generate_eq)
  have ne: "?W \<noteq> []" using window_length [of today] by auto
  have hd0: "hd ?W = ?W ! 0" using ne by (simp add: hd_conv_nth)
  have main: "\<forall>i<31. (fill rd ?W ?seed ! i = None) = (\<forall>d \<in> dict_keys rd. \<not> d \<le> ?W ! i)"
  proof (intro allI impI)
    fix i :: nat assume i: "i < 31"
    have "(fill rd ?W ?seed ! i = None) = (?seed = None \<and> (\<forall>j\<le>i. ?W ! j \<notin> dict_keys rd))"
      using i by (intro fill_None_iff) (simp add: window_length)
    also have "\<dots> = ((\<forall>d \<in> dict_keys rd. \<not> d \<le> ?W ! 0) \<and> (\<forall>j\<le>i. ?W ! j \<notin> dict_keys rd))"
      by (simp only: seed_None_iff hd0)
    also have "\<dots> = (\<forall>d \<in> dict_keys rd. \<not> (d \<le> ?W ! 0 \<or> (\<exists>j\<le>i. d = ?W ! j)))"
      by blast
    also have "\<dots> = (\<forall>d \<in> dict_keys rd. \<not> d \<le> ?W ! i)"
    proof (rule ball_cong [OF refl])
      fix d assume "d \<in> dict_keys rd"
      then have "valid_date d" using assms(3) by blast
      then show "(\<not> (d \<le> ?W ! 0 \<or> (\<exists>j\<le>i. d = ?W ! j))) = (\<not> d \<le> ?W ! i)"
        using window_cover [OF assms(1,2) _ i, of d] by simp
    qed
    finally show "(fill rd ?W ?seed ! i = None) = (\<forall>d \<in> dict_keys rd. \<not> d \<le> ?W ! i)" .
  qed
  have e: "generate_last_30_days_ratings [] today = Inr (replicate 31 None)"
    using generate_eq [OF assms(1,2), of "[]"]
    by (simp add: get_first_rating_before_date_def fill_empty window_length)
  show ?thesis
    using a g main e by (simp add: fill_length window_length)
qed

theorem entry_absent_iff_no_history_witness:
  "valid_date (2024, 3, 10) \<and> (1, 1, 31) \<le> (2024 :: int, 3 :: int, 10 :: int) \<and>
   dict_keys [((2024, 2, 29), 1500)] = {(2024, 2, 29)} \<and> valid_date (2024, 2, 29) \<and>
   (\<exists>days ratings.
      last_30_days (2024, 3, 10) = Inr days \<and>
      generate_last_30_days_ratings [((2024, 2, 29), 1500)] (2024, 3, 10) = Inr ratings \<and>
      (19 :: nat) < 31 \<and> ratings ! 19 = None \<and>
      (\<forall>d \<in> dict_keys [((2024, 2, 29), 1500)]. \<not> d \<le> days ! 19) \<and>
      (20 :: nat) < 31 \<and> ratings ! 20 \<noteq> None \<and>
      (\<exists>d \<in> dict_keys [((2024, 2, 29), 1500)]. d \<le> days ! 20))"
proof -
  have v: "\<forall>d \<in> dict_keys [((2024, 2, 29), 1500)]. valid_date d"
    by (simp add: dict_keys_def days_in_month_def is_leap_def)
  obtain days ratings where
    d: "last_30_days (2024, 3, 10) = Inr days" and
    r: "generate_last_30_days_ratings [((2024, 2, 29), 1500)] (2024, 3, 10) = Inr ratings" and
    f: "\<forall>i<31. (ratings ! i = None) = (\<forall>d \<in> dict_keys [((2024, 2, 29), 1500)]. \<not> d \<le> days ! i)"
    using entry_absent_iff_no_history [OF valid_2024_03_10 v] by blast
  have e: "days ! 19 = (2024, 2, 28)" "days ! 20 = (2024, 2, 29)"
    using d unfolding window_2024_03_10 by auto
  have a: "\<forall>d \<in> dict_keys [((2024, 2, 29), 1500)]. \<not> d \<le> days ! 19"
    unfolding e by (simp add: dict_keys_def)
  have b: "\<exists>d \<in> dict_keys [((2024, 2, 29), 1500)]. d \<le> days ! 20"
    unfolding e by (simp add: dict_keys_def)
  from f a have "ratings ! 19 = None" by simp
  moreover from f b have "ratings ! 20 \<noteq> None" by simp
  ultimately have ex: "\<exists>days ratings.
      last_30_days (2024, 3, 10) = Inr days \<and>
      generate_last_30_days_ratings [((2024, 2, 29), 1500)] (2024, 3, 10) = Inr ratings \<and>
      (19 :: nat) < 31 \<and> ratings ! 19 = None \<and>
      (\<forall>d \<in> dict_keys [((2024, 2, 29), 1500)]. \<not> d \<le> days ! 19) \<and>
      (20 :: nat) < 31 \<and> ratings ! 20 \<noteq> None \<and>
      (\<exists>d \<in> dict_keys [((2024, 2, 29), 1500)]. d \<le> days ! 20)"
    using d r a b by simp
  have k: "dict_keys [((2024, 2, 29), 1500)] = {(2024, 2, 29)}" "valid_date (2024, 2, 29)"
    by (simp_all add: dict_keys_def days_in_month_def is_leap_def)
  show ?thesis
    by (intro conjI) (rule valid_2024_03_10 k ex)+
qed

section \<open>Claims about building the mapping\<close>

lemma well_formed_pointE:
  assumes "well_formed_point p"
  obtains y m d r where "p = [y, m, d, r]" and "valid_date (y, m + 1, d)"
  using assms unfolding well_formed_point_def
  by (auto split: list.splits)

lemma valid_date_fits_c_int:
  assumes "valid_date (y, m, d)"
  shows "fits_c_int y \<and> fits_c_int m \<and> fits_c_int d"
proof -
  have "d \<le> 31" using assms days_in_month_bounds [of y m] by simp
  with assms show ?thesis by (simp add: fits_c_int_def)
qed

lemma mk_date_valid: "valid_date (y, m, d) \<Longrightarrow> mk_date y m d = Inr (y, m, d)"
  using valid_date_fits_c_int [of y m d] by (simp add: mk_date_def)

lemma mk_date_invalid:
  "\<not> valid_date (y, m, d) \<Longrightarrow>
     mk_date y m d =
       Inl (if fits_c_int y \<and> fits_c_int m \<and> fits_c_int d then ValueError else OverflowError)"
  by (simp add: mk_date_def)

lemma build_loop_step:
  assumes "well_formed_point p"
  shows "build_loop (p # rest) rd = build_loop rest (AList.update (point_date p) (point_rating p) rd)"
proof -
  from assms obtain y m d r where p: "p = [y, m, d, r]" and v: "valid_date (y, m + 1, d)"
    by (rule well_formed_pointE)
  show ?thesis unfolding p using mk_date_valid [OF v]
    by (simp add: point_date_def point_rating_def)
qed

lemma build_loop_bad_head:
  assumes "\<not> well_formed_point p"
  shows "build_loop (p # rest) rd = Inl (observation_error p)"
proof (cases "\<exists>y m d r. p = [y, m, d, r]")
  case True
  then obtain y m d r where p: "p = [y, m, d, r]" by blast
  with assms have "\<not> valid_date (y, m + 1, d)" by (simp add: well_formed_point_def)
  then show ?thesis unfolding p
    by (simp add: mk_date_invalid observation_error_def)
next
  case False
  then show ?thesis
    by (auto simp: observation_error_def split: list.splits)
qed

lemma build_loop_fails:
  "find (\<lambda>p. \<not> well_formed_point p) h = Some p \<Longrightarrow> build_loop h rd = Inl (observation_error p)"
proof (induction h arbitrary: rd)
  case Nil
  then show ?case by simp
next
  case (Cons q rest)
  show ?case
  proof (cases "well_formed_point q")
    case True
    with Cons.prems have "find (\<lambda>p. \<not> well_formed_point p) rest = Some p" by simp
    then have "build_loop rest (AList.update (point_date q) (point_rating q) rd)
                 = Inl (observation_error p)"
      by (rule Cons.IH)
    then show ?thesis by (simp only: build_loop_step [OF True])
  next
    case False
    with Cons.prems have "q = p" by simp
    with False have "\<not> well_formed_point p" by simp
    then have "build_loop (p # rest) rd = Inl (observation_error p)"
      by (rule build_loop_bad_head)
    with \<open>q = p\<close> show ?thesis by simp
  qed
qed

lemma observation_error_cases: "observation_error p = ValueError \<or> observation_error p = OverflowError"
  by (simp add: observation_error_def split: list.splits)

lemma build_loop_succeeds:
  "\<forall>p \<in> set h. well_formed_point p \<Longrightarrow>
     \<exists>rd'. build_loop h rd = Inr rd' \<and>
           (\<forall>dt. map_of rd' dt = (case last_write h dt of None \<Rightarrow> map_of rd dt | Some r \<Rightarrow> Some r)) \<and>
           (distinct (map fst rd) \<longrightarrow> distinct (map fst rd'))"
proof (induction h arbitrary: rd)
  case Nil
  then show ?case by (simp add: last_write_def)
next
  case (Cons p rest)
  then have wf: "well_formed_point p" and rest: "\<forall>q \<in> set rest. well_formed_point q" by simp_all
  let ?rd1 = "AList.update (point_date p) (point_rating p) rd"
  from Cons.IH [OF rest, of ?rd1] obtain rd' where
    b: "build_loop rest ?rd1 = Inr rd'" and
    m: "\<forall>dt. map_of rd' dt = (case last_write rest dt of None \<Rightarrow> map_of ?rd1 dt | Some r \<Rightarrow> Some r)" and
    d: "distinct (map fst ?rd1) \<longrightarrow> distinct (map fst rd')"
    by blast
  have b': "build_loop (p # rest) rd = Inr rd'"
    using b by (simp only: build_loop_step [OF wf])
  have m': "\<forall>dt. map_of rd' dt = (case last_write (p # rest) dt of None \<Rightarrow> map_of rd dt | Some r \<Rightarrow> Some r)"
  proof
    fix dt
    show "map_of rd' dt = (case last_write (p # rest) dt of None \<Rightarrow> map_of rd dt | Some r \<Rightarrow> Some r)"
      using m [rule_format, of dt]
      by (auto simp: last_write_def Let_def update_conv')
  qed
  have d': "distinct (map fst rd) \<longrightarrow> distinct (map fst rd')"
    using d by (simp add: distinct_update)
  from b' m' d' show ?case by blast
qed

text \<open>
  Claim C7, as amended. Building the date-to-rating mapping fails, and drops no entry
  silently, whenever some observation does not give a valid calendar date from its year,
  month + 1 and day: it raises the exception of the first such observation, which is
  \<^verbatim>\<open>ValueError\<close> (the error of a malformed observation), or \<^verbatim>\<open>OverflowError\<close> when the year,
  month + 1 or day of that observation does not fit a C \<^verbatim>\<open>int\<close>. When every observation
  gives a valid date, the build succeeds, its keys are distinct, and each date maps to the
  rating of the last observation on that date: later observations overwrite earlier ones.
\<close>

theorem build_mapping_fails_or_last_write_wins:
  "(if \<forall>p \<in> set classical_history. well_formed_point p
    then \<exists>rating_dict.
           build_date_to_rating_mapping classical_history = Inr rating_dict \<and>
           distinct (map fst rating_dict) \<and>
           (\<forall>date. map_of rating_dict date = last_write classical_history date)
    else \<exists>p. find (\<lambda>p. \<not> well_formed_point p) classical_history = Some p \<and>
             build_date_to_rating_mapping classical_history = Inl (observation_error p) \<and>
             (observation_error p = ValueError \<or> observation_error p = OverflowError))"
proof (cases "\<forall>p \<in> set classical_history. well_formed_point p")
  case True
  from build_loop_succeeds [OF True, of "[]"] obtain rd' where
    b: "build_loop classical_history [] = Inr rd'" and
    m: "\<forall>dt. map_of rd' dt = (case last_write classical_history dt of None \<Rightarrow> map_of [] dt | Some r \<Rightarrow> Some r)" and
    d: "distinct (map fst ([] :: rating_dict)) \<longrightarrow> distinct (map fst rd')"
    by blast
  have "\<forall>dt. map_of rd' dt = last_write classical_history dt"
    using m by (auto split: option.splits)
  with b d have ex: "\<exists>rating_dict.
           build_date_to_rating_mapping classical_history = Inr rating_dict \<and>
           distinct (map fst rating_dict) \<and>
           (\<forall>date. map_of rating_dict date = last_write classical_history date)"
    by (simp add: build_date_to_rating_mapping_def)
  show ?thesis by (subst if_P [OF True]) (rule ex)
next
  case False
  then have "find (\<lambda>p. \<not> well_formed_point p) classical_history \<noteq> None"
    by (auto simp: find_None_iff)
  then obtain p where f: "find (\<lambda>p. \<not> well_formed_point p) classical_history = Some p"
    by blast
  then have "build_loop classical_history [] = Inl (observation_error p)"
    by (rule build_loop_fails)
  with f observation_error_cases [of p]
  have ex: "\<exists>p. find (\<lambda>p. \<not> well_formed_point p) classical_history = Some p \<and>
             build_date_to_rating_mapping classical_history = Inl (observation_error p) \<and>
             (observation_error p = ValueError \<or> observation_error p = OverflowError)"
    by (simp add: build_date_to_rating_mapping_def)
  show ?thesis by (subst if_not_P [OF False]) (rule ex)
qed

theorem build_mapping_fails_or_last_write_wins_witness:
  "well_formed_point [2024, 0, 15, 1500] \<and> well_formed_point [2024, 0, 20, 1550] \<and>
   well_formed_point [2024, 0, 15, 1510] \<and>
   (\<exists>rating_dict.
      build_date_to_rating_mapping [ [2024, 0, 15, 1500], [2024, 0, 20, 1550], [2024, 0, 15, 1510]]
        = Inr rating_dict \<and>
      map_of rating_dict (2024, 1, 15) = Some 1510 \<and>
      map_of rating_dict (2024, 1, 20) = Some 1550 \<and>
      map_of rating_dict (2024, 1, 16) = None) \<and>
   \<not> well_formed_point [2023, 1, 29, 1500] \<and>
   build_date_to_rating_mapping [ [2024, 0, 15, 1500], [2023, 1, 29, 1500]] = Inl ValueError \<and>
   \<not> well_formed_point [2024, 4294967296, 1, 1500] \<and>
   build_date_to_rating_mapping [ [2024, 0, 15, 1500], [2024, 4294967296, 1, 1500]]
     = Inl OverflowError"
proof -
  have w: "well_formed_point [2024, 0, 15, 1500]" "well_formed_point [2024, 0, 20, 1550]"
          "well_formed_point [2024, 0, 15, 1510]" "\<not> well_formed_point [2023, 1, 29, 1500]"
          "\<not> well_formed_point [2024, 4294967296, 1, 1500]"
    by (simp_all add: well_formed_point_def days_in_month_def is_leap_def)
  let ?h = "[ [2024, 0, 15, 1500], [2024, 0, 20, 1550], [2024, 0, 15, 1510 :: int]]"
  have lw: "last_write ?h (2024, 1, 15) = Some 1510" "last_write ?h (2024, 1, 20) = Some 1550"
           "last_write ?h (2024, 1, 16) = None"
    by (simp_all add: last_write_def point_date_def point_rating_def)
  have "\<forall>p \<in> set ?h. well_formed_point p" using w by simp
  then obtain rating_dict where
    b: "build_date_to_rating_mapping ?h = Inr rating_dict" and
    m: "\<forall>date. map_of rating_dict date = last_write ?h date"
    using build_mapping_fails_or_last_write_wins [of ?h] by auto
  have ok: "\<exists>rating_dict.
      build_date_to_rating_mapping ?h = Inr rating_dict \<and>
      map_of rating_dict (2024, 1, 15) = Some 1510 \<and>
      map_of rating_dict (2024, 1, 20) = Some 1550 \<and>
      map_of rating_dict (2024, 1, 16) = None"
    using b m lw by (intro exI [of _ rating_dict]) (simp only: simp_thms)
  have e: "observation_error [2023, 1, 29, 1500] = ValueError"
          "observation_error [2024, 4294967296, 1, 1500] = OverflowError"
    by (simp_all add: observation_error_def fits_c_int_def)
  have bad: "build_date_to_rating_mapping [ [2024, 0, 15, 1500], [2023, 1, 29, 1500]] = Inl ValueError"
    using build_mapping_fails_or_last_write_wins [of "[ [2024, 0, 15, 1500], [2023, 1, 29, 1500]]"] w e
    by simp
  have big: "build_date_to_rating_mapping [ [2024, 0, 15, 1500], [2024, 4294967296, 1, 1500]]
               = Inl OverflowError"
    using build_mapping_fails_or_last_write_wins
            [of "[ [2024, 0, 15, 1500], [2024, 4294967296, 1, 1500]]"] w e
    by simp
  show ?thesis
    by (intro conjI) (rule w ok bad big)+
qed

text \<open>
  The claim as stated, with one error for every malformed observation, fails for a year
  outside the range of a C \<^verbatim>\<open>int\<close>: \<^verbatim>\<open>datetime(2147483648, 1, 1)\<close> raises \<^verbatim>\<open>OverflowError\<close>,
  not the \<^verbatim>\<open>ValueError\<close> that an impossible date such as the 31st of February raises.
\<close>

theorem build_mapping_overflow_error:
  "\<not> valid_date (2147483648, 0 + 1, 1) \<and>
   build_date_to_rating_mapping [ [2147483648, 0, 1, 1500]] = Inl OverflowError \<and>
   build_date_to_rating_mapping [ [2147483648, 0, 1, 1500]] \<noteq> Inl ValueError \<and>
   build_date_to_rating_mapping [ [2023, 1, 31, 1500]] = Inl ValueError"
  by (simp add: build_date_to_rating_mapping_def mk_date_def fits_c_int_def days_in_month_def
        is_leap_def)

section \<open>Claims about the provider calls\<close>

text \<open>
  Claim C8, as amended. Fetching a player's rating history raises
  \<^verbatim>\<open>RatingHistoryNotFoundError(username)\<close> exactly when the provider returns the absent
  payload (\<^verbatim>\<open>null\<close>); it raises \<^verbatim>\<open>APIError\<close>, a different error, exactly when the transport
  fails; any other payload, the empty list included, is returned as it is.
\<close>

theorem rating_history_not_found_iff_absent:
  "(get_player_rating_history api username = Inl (RatingHistoryNotFoundError username))
     = (rating_history api username = Body None) \<and>
   (get_player_rating_history api username = Inl APIError)
     = (rating_history api username = RequestFailed) \<and>
   (get_player_rating_history api username = Inr rating_data)
     = (rating_history api username = Body (Some rating_data))"
  by (cases "rating_history api username")
     (auto simp: get_player_rating_history_def split: option.splits)

text \<open>
  The claim as stated fails for the empty payload: the fetch returns the empty list, and it
  is the extraction of the classical history that then raises
  \<^verbatim>\<open>ClassicalRatingNotFoundError\<close>.
\<close>

theorem empty_rating_history_is_returned:
  "rating_history \<lparr>top_players = \<lambda>_. RequestFailed, rating_history = \<lambda>_. Body (Some [])\<rparr> ''alice''
     = Body (Some []) \<and>
   get_player_rating_history
     \<lparr>top_players = \<lambda>_. RequestFailed, rating_history = \<lambda>_. Body (Some [])\<rparr> ''alice''
     = Inr [] \<and>
   get_player_rating_history
     \<lparr>top_players = \<lambda>_. RequestFailed, rating_history = \<lambda>_. Body (Some [])\<rparr> ''alice''
     \<noteq> Inl (RatingHistoryNotFoundError ''alice'') \<and>
   get_last_30_days_classical_ratings_for_player
     \<lparr>top_players = \<lambda>_. RequestFailed, rating_history = \<lambda>_. Body (Some [])\<rparr> (2024, 3, 10) ''alice''
     = Inl (ClassicalRatingNotFoundError ''alice'')"
  by (simp add: get_player_rating_history_def get_last_30_days_classical_ratings_for_player_def)

lemma map_filter_usernames:
  "List.map_filter
     (\<lambda>player. case get_username player of
         None \<Rightarrow> None
       | Some u \<Rightarrow> if u \<noteq> [] then Some u else None) players
   = map (\<lambda>player. the (get_username player))
       (filter (\<lambda>player. get_username player \<noteq> None \<and> get_username player \<noteq> Some []) players)"
  by (induction players) (auto simp: List.map_filter_simps split: option.splits)

lemma top_players_not_found:
  assumes "top_players api cnt = Body data"
    and "data = None \<or> (\<exists>d. data = Some d \<and> (get_users d = None \<or> get_users d = Some []))"
  shows "get_top_players_usernames api cnt = Inl PlayerNotFoundError"
  using assms by (auto simp: get_top_players_usernames_def)

lemma top_players_found:
  assumes "top_players api cnt = Body (Some d)" and "get_users d = Some players" and "players \<noteq> []"
  shows "get_top_players_usernames api cnt =
           Inr (map (\<lambda>player. the (get_username player))
                 (filter (\<lambda>player. get_username player \<noteq> None \<and> get_username player \<noteq> Some []) players))"
  using assms by (simp add: get_top_players_usernames_def map_filter_usernames)

text \<open>
  Claim C9. The leaderboard retrieval raises \<^verbatim>\<open>PlayerNotFoundError\<close> whenever the response is
  absent, has no player list or has an empty one, and the bulk export then ends with that
  error without submitting any task; for a non-empty list it returns the usernames that
  are present and non-empty, in the order of the provider.
\<close>

theorem leaderboard_empty_or_absent:
  "(top_players api cnt = Body data \<and>
      (data = None \<or> (\<exists>d. data = Some d \<and> (get_users d = None \<or> get_users d = Some [])))
      \<longrightarrow> get_top_players_usernames api cnt = Inl PlayerNotFoundError) \<and>
   (top_players api 50 = Body data \<and>
      (data = None \<or> (\<exists>d. data = Some d \<and> (get_users d = None \<or> get_users d = Some [])))
      \<longrightarrow> generate_rating_csv_for_top_50_classical_players api today completed
            = \<lparr>submitted = [], outcome = Inl PlayerNotFoundError\<rparr>) \<and>
   (top_players api cnt = Body (Some d) \<and> get_users d = Some players \<and> players \<noteq> []
      \<longrightarrow> get_top_players_usernames api cnt =
            Inr (map (\<lambda>player. the (get_username player))
                  (filter (\<lambda>player. get_username player \<noteq> None \<and> get_username player \<noteq> Some [])
                     players)))"
proof (intro conjI impI)
  assume a: "top_players api cnt = Body data \<and>
      (data = None \<or> (\<exists>d. data = Some d \<and> (get_users d = None \<or> get_users d = Some [])))"
  then show "get_top_players_usernames api cnt = Inl PlayerNotFoundError"
    using top_players_not_found [of api cnt data] by blast
next
  assume a: "top_players api 50 = Body data \<and>
      (data = None \<or> (\<exists>d. data = Some d \<and> (get_users d = None \<or> get_users d = Some [])))"
  then have "get_top_players_usernames api 50 = Inl PlayerNotFoundError"
    using top_players_not_found [of api 50 data] by blast
  then show "generate_rating_csv_for_top_50_classical_players api today completed
            = \<lparr>submitted = [], outcome = Inl PlayerNotFoundError\<rparr>"
    by (simp add: generate_rating_csv_for_top_50_classical_players_def)
next
  assume "top_players api cnt = Body (Some d) \<and> get_users d = Some players \<and> players \<noteq> []"
  then show "get_top_players_usernames api cnt =
            Inr (map (\<lambda>player. the (get_username player))
                  (filter (\<lambda>player. get_username player \<noteq> None \<and> get_username player \<noteq> Some [])
                     players))"
    using top_players_found [of api cnt d players] by blast
qed

theorem leaderboard_empty_or_absent_witness:
  "top_players \<lparr>top_players = \<lambda>_. Body (Some \<lparr>get_users = Some []\<rparr>),
                 rating_history = \<lambda>_. RequestFailed\<rparr> 50
     = Body (Some \<lparr>get_users = Some []\<rparr>) \<and>
   get_top_players_usernames
     \<lparr>top_players = \<lambda>_. Body (Some \<lparr>get_users = Some []\<rparr>),
      rating_history = \<lambda>_. RequestFailed\<rparr> 50
     = Inl PlayerNotFoundError \<and>
   generate_rating_csv_for_top_50_classical_players
     \<lparr>top_players = \<lambda>_. Body (Some \<lparr>get_users = Some []\<rparr>),
      rating_history = \<lambda>_. RequestFailed\<rparr> (2024, 3, 10) []
     = \<lparr>submitted = [], outcome = Inl PlayerNotFoundError\<rparr> \<and>
   get_top_players_usernames
     \<lparr>top_players = \<lambda>_. Body (Some \<lparr>get_users =
         Some [\<lparr>get_username = Some ''alice''\<rparr>, \<lparr>get_username = Some ''bob''\<rparr>]\<rparr>),
      rating_history = \<lambda>_. RequestFailed\<rparr> 50
     = Inr [''alice'', ''bob'']"
proof -
  let ?e = "\<lparr>top_players = \<lambda>_. Body (Some \<lparr>get_users = Some []\<rparr>),
             rating_history = \<lambda>_. RequestFailed\<rparr>"
  let ?t = "\<lparr>top_players = \<lambda>_. Body (Some \<lparr>get_users =
                Some [\<lparr>get_username = Some ''alice''\<rparr>, \<lparr>get_username = Some ''bob''\<rparr>]\<rparr>),
             rating_history = \<lambda>_. RequestFailed\<rparr>"
  have e: "top_players ?e 50 = Body (Some \<lparr>get_users = Some []\<rparr>)" by simp
  have a: "get_top_players_usernames ?e 50 = Inl PlayerNotFoundError"
    using leaderboard_empty_or_absent [where api = ?e and cnt = 50 and data = "Some \<lparr>get_users = Some []\<rparr>"] by simp
  have b: "generate_rating_csv_for_top_50_classical_players ?e (2024, 3, 10) []
             = \<lparr>submitted = [], outcome = Inl PlayerNotFoundError\<rparr>"
    using leaderboard_empty_or_absent [where api = ?e and data = "Some \<lparr>get_users = Some []\<rparr>"
                and today = "(2024, 3, 10)" and completed = "[]"] by simp
  have c: "get_top_players_usernames ?t 50 = Inr [''alice'', ''bob'']"
    using leaderboard_empty_or_absent [where api = ?t and cnt = 50
                and d = "\<lparr>get_users = Some [\<lparr>get_username = Some ''alice''\<rparr>, \<lparr>get_username = Some ''bob''\<rparr>]\<rparr>"
                and players = "[\<lparr>get_username = Some ''alice''\<rparr>, \<lparr>get_username = Some ''bob''\<rparr>]"]
    by simp
  show ?thesis by (intro conjI) (rule e a b c)+
qed

text \<open>
  Claim C10. For a non-empty player list the retrieval raises nothing and drops every entry
  whose username is missing or empty: the result has one username for each remaining
  entry, which is fewer than the list has entries as soon as one entry is dropped.
\<close>

theorem leaderboard_drops_missing_usernames:
  assumes "top_players api cnt = Body (Some d)" and "get_users d = Some players" and "players \<noteq> []"
  shows "\<exists>usernames.
           get_top_players_usernames api cnt = Inr usernames \<and>
           length usernames =
             length (filter (\<lambda>player. get_username player \<noteq> None \<and> get_username player \<noteq> Some [])
                       players) \<and>
           set usernames = {u. u \<noteq> [] \<and> (\<exists>player \<in> set players. get_username player = Some u)} \<and>
           ((\<exists>player \<in> set players. get_username player = None \<or> get_username player = Some [])
              \<longrightarrow> length usernames < length players)"
proof -
  let ?keep = "\<lambda>player. get_username player \<noteq> None \<and> get_username player \<noteq> Some []"
  let ?us = "map (\<lambda>player. the (get_username player)) (filter ?keep players)"
  have r: "get_top_players_usernames api cnt = Inr ?us"
    using assms by (rule top_players_found)
  have s: "set ?us = {u. u \<noteq> [] \<and> (\<exists>player \<in> set players. get_username player = Some u)}"
    by (auto simp: image_iff) force
  have l: "(\<exists>player \<in> set players. get_username player = None \<or> get_username player = Some [])
              \<longrightarrow> length ?us < length players"
  proof
    assume "\<exists>player \<in> set players. get_username player = None \<or> get_username player = Some []"
    then obtain player where "player \<in> set players" and "\<not> ?keep player" by blast
    then have "length (filter ?keep players) < length players"
      by (rule length_filter_less)
    then show "length ?us < length players" by simp
  qed
  from r s l show ?thesis by (intro exI [of _ ?us]) simp
qed

theorem leaderboard_drops_missing_usernames_witness:
  "top_players
     \<lparr>top_players = \<lambda>_. Body (Some \<lparr>get_users =
         Some [\<lparr>get_username = Some ''alice''\<rparr>, \<lparr>get_username = None\<rparr>,
               \<lparr>get_username = Some []\<rparr>]\<rparr>),
      rating_history = \<lambda>_. RequestFailed\<rparr> 3
     = Body (Some \<lparr>get_users =
         Some [\<lparr>get_username = Some ''alice''\<rparr>, \<lparr>get_username = None\<rparr>,
               \<lparr>get_username = Some []\<rparr>]\<rparr>) \<and>
   (\<exists>usernames.
      get_top_players_usernames
        \<lparr>top_players = \<lambda>_. Body (Some \<lparr>get_users =
            Some [\<lparr>get_username = Some ''alice''\<rparr>, \<lparr>get_username = None\<rparr>,
                  \<lparr>get_username = Some []\<rparr>]\<rparr>),
         rating_history = \<lambda>_. RequestFailed\<rparr> 3
        = Inr usernames \<and>
      length usernames = 1 \<and> set usernames = {''alice''} \<and> length usernames < 3)"
proof -
  let ?ps = "[\<lparr>get_username = Some ''alice''\<rparr>, \<lparr>get_username = None\<rparr>, \<lparr>get_username = Some []\<rparr>]"
  let ?t = "\<lparr>top_players = \<lambda>_. Body (Some \<lparr>get_users = Some ?ps\<rparr>),
             rating_history = \<lambda>_. RequestFailed\<rparr>"
  have e: "top_players ?t 3 = Body (Some \<lparr>get_users = Some ?ps\<rparr>)" by simp
  have g: "get_users \<lparr>get_users = Some ?ps\<rparr> = Some ?ps" by simp
  have n: "?ps \<noteq> []" by simp
  obtain usernames where
    r: "get_top_players_usernames ?t 3 = Inr usernames" and
    l: "length usernames =
          length (filter (\<lambda>player. get_username player \<noteq> None \<and> get_username player \<noteq> Some []) ?ps)" and
    s: "set usernames = {u. u \<noteq> [] \<and> (\<exists>player \<in> set ?ps. get_username player = Some u)}"
    using leaderboard_drops_missing_usernames [OF e g n] by blast
  have l1: "length usernames = 1" using l by simp
  have s1: "set usernames = {''alice''}" unfolding s by auto
  have "\<exists>usernames. get_top_players_usernames ?t 3 = Inr usernames \<and>
      length usernames = 1 \<and> set usernames = {''alice''} \<and> length usernames < 3"
    using r l1 s1 by simp
  with e show ?thesis by (intro conjI)
qed

section \<open>The bulk export: collecting and ordering the rows\<close>

lemma sort_rows_key: "sort_rows usernames data_rows = sort_key (order_key usernames) data_rows"
  unfolding sort_rows_def order_key_def ..

lemma collect_rows_caught:
  "(\<And>u e. u \<in> set completed \<Longrightarrow> task u = Inl e \<Longrightarrow> is_ChessRankingsServiceError e) \<Longrightarrow>
     collect_rows task completed acc = Inr (acc @ map (row_of task) completed)"
proof (induction completed arbitrary: acc)
  case Nil
  then show ?case by simp
next
  case (Cons u rest)
  have IH: "\<And>acc. collect_rows task rest acc = Inr (acc @ map (row_of task) rest)"
    using Cons.prems by (intro Cons.IH) auto
  show ?case
  proof (cases "task u")
    case (Inl e)
    then have "is_ChessRankingsServiceError e" using Cons.prems [of u e] by simp
    with Inl show ?thesis by (simp add: IH row_of_def)
  next
    case (Inr rs)
    then show ?thesis by (simp add: IH row_of_def)
  qed
qed

lemma username_order_snoc:
  "username_order (us @ [u]) = (username_order us)(u \<mapsto> length us)"
  by (simp add: username_order_def enumerate_append_eq)

lemma username_order_nth:
  "distinct us \<Longrightarrow> i < length us \<Longrightarrow> username_order us (us ! i) = Some i"
proof (induction us arbitrary: i rule: rev_induct)
  case Nil
  then show ?case by simp
next
  case (snoc u us)
  show ?case
  proof (cases "i < length us")
    case True
    then have "us ! i \<in> set us" by simp
    with snoc.prems have "us ! i \<noteq> u" by auto
    with True snoc show ?thesis by (simp add: username_order_snoc nth_append)
  next
    case False
    with snoc.prems have "i = length us" by simp
    then show ?thesis by (simp add: username_order_snoc)
  qed
qed

lemma order_key_nth:
  "distinct us \<Longrightarrow> i < length us \<Longrightarrow> order_key us (row_of task (us ! i)) = i"
  by (simp add: order_key_def row_of_def username_order_nth)

lemma order_key_map: 
  assumes "distinct us"
  shows "map (order_key us) (map (row_of task) us) = [0..<length us]"
  using assms by (intro nth_equalityI) (simp_all add: order_key_nth)

lemma filter_key_singleton:
  "distinct zs \<Longrightarrow> k \<in> set zs \<Longrightarrow> inj_on f (set zs) \<Longrightarrow> filter (\<lambda>x. f k = f x) zs = [k]"
proof (induction zs)
  case Nil
  then show ?case by simp
next
  case (Cons z zs)
  show ?case
  proof (cases "z = k")
    case True
    have "\<forall>x \<in> set zs. f k \<noteq> f x"
    proof
      fix x assume x: "x \<in> set zs"
      with Cons.prems(1) True have "x \<noteq> k" by auto
      with Cons.prems(3) x True show "f k \<noteq> f x" by (auto simp: inj_on_def)
    qed
    then have "filter (\<lambda>x. f k = f x) zs = []" by (simp add: filter_empty_conv)
    with True show ?thesis by simp
  next
    case False
    with Cons.prems have k: "k \<in> set zs" and d: "distinct zs" and i: "inj_on f (set zs)"
      by (auto simp: inj_on_def)
    from Cons.prems(3) False k have "f k \<noteq> f z" by (auto simp: inj_on_def)
    with Cons.IH [OF d k i] show ?thesis by simp
  qed
qed

lemma sort_rows_restores_order:
  assumes "distinct us" and "mset completed = mset us"
  shows "sort_rows us (map (row_of task) completed) = map (row_of task) us"
proof -
  let ?xs = "map (row_of task) completed" and ?ys = "map (row_of task) us"
  have inj: "inj (row_of task)" by (auto simp: inj_on_def row_of_def)
  have dc: "distinct completed" using assms mset_eq_imp_distinct_iff by blast
  have sc: "set completed = set us" using assms(2) by (rule mset_eq_setD)
  have dx: "distinct ?xs" and dy: "distinct ?ys"
    using dc assms(1) inj by (simp_all add: distinct_map inj_on_subset [OF _ subset_UNIV])
  have sxy: "set ?xs = set ?ys" using sc by simp
  have m: "mset ?ys = mset ?xs" using assms(2) by (metis mset_map)
  have keys: "map (order_key us) ?ys = [0..<length us]"
    using assms(1) by (rule order_key_map)
  have "distinct (map (order_key us) ?ys)" unfolding keys by simp
  then have ki: "inj_on (order_key us) (set ?ys)" by (simp only: distinct_map)
  have "sort_key (order_key us) ?xs = ?ys"
  proof (rule properties_for_sort_key [OF m])
    fix k assume k: "k \<in> set ?ys"
    have "filter (\<lambda>x. order_key us k = order_key us x) ?ys = [k]"
      using dy k ki by (rule filter_key_singleton)
    moreover have "filter (\<lambda>x. order_key us k = order_key us x) ?xs = [k]"
      using dx k ki unfolding sxy [symmetric] by (rule filter_key_singleton)
    ultimately show "filter (\<lambda>x. order_key us k = order_key us x) ?ys
                   = filter (\<lambda>x. order_key us k = order_key us x) ?xs" by simp
  next
    show "sorted (map (order_key us) ?ys)" unfolding keys by simp
  qed
  then show ?thesis by (simp only: sort_rows_key)
qed

lemma last_30_days_window:
  assumes "valid_date today" and "(1, 1, 31) \<le> today"
  shows "last_30_days today = Inr (window today)"
  using last_30_days_eq [OF assms] by (simp only: window_def)

lemma generate_csv_collected:
  assumes "get_top_players_usernames api 50 = Inr usernames" and "usernames \<noteq> []"
    and "valid_date today" and "(1, 1, 31) \<le> today"
    and "\<And>u e. u \<in> set completed \<Longrightarrow>
           get_last_30_days_classical_ratings_for_player api today u = Inl e \<Longrightarrow>
           is_ChessRankingsServiceError e"
  shows "generate_rating_csv_for_top_50_classical_players api today completed =
           \<lparr>submitted = usernames,
            outcome = Inr (sort_rows usernames
                       (map (row_of (get_last_30_days_classical_ratings_for_player api today))
                          completed))\<rparr>"
proof -
  let ?task = "get_last_30_days_classical_ratings_for_player api today"
  have c: "collect_rows ?task completed [] = Inr ([] @ map (row_of ?task) completed)"
    using assms(5) by (rule collect_rows_caught)
  have w: "\<not> min 10 (int (length usernames)) \<le> 0" using assms(2) by (cases usernames) simp_all
  show ?thesis
    using assms(1) last_30_days_window [OF assms(3,4)] c w
    by (simp add: generate_rating_csv_for_top_50_classical_players_def Let_def)
qed

lemma collect_rows_uncaught:
  "find (\<lambda>u. uncaught (task u)) completed = Some u \<Longrightarrow> task u = Inl e \<Longrightarrow>
     collect_rows task completed acc = Inl e"
proof (induction completed arbitrary: acc)
  case Nil
  then show ?case by simp
next
  case (Cons v rest)
  show ?case
  proof (cases "uncaught (task v)")
    case True
    with Cons.prems(1) have "v = u" by simp
    with True Cons.prems(2) show ?thesis by (simp add: uncaught_def)
  next
    case False
    with Cons.prems(1) have "find (\<lambda>u. uncaught (task u)) rest = Some u" by simp
    then have IH: "\<And>acc. collect_rows task rest acc = Inl e"
      using Cons.prems(2) by (rule Cons.IH)
    from False show ?thesis
      by (cases "task v") (simp_all add: uncaught_def IH)
  qed
qed

lemma generate_csv_aborted:
  assumes "get_top_players_usernames api 50 = Inr usernames" and "usernames \<noteq> []"
    and "valid_date today" and "(1, 1, 31) \<le> today"
    and "find (\<lambda>u. uncaught (get_last_30_days_classical_ratings_for_player api today u))
           completed = Some u"
    and "get_last_30_days_classical_ratings_for_player api today u = Inl e"
  shows "generate_rating_csv_for_top_50_classical_players api today completed =
           \<lparr>submitted = usernames, outcome = Inl e\<rparr>"
proof -
  let ?task = "get_last_30_days_classical_ratings_for_player api today"
  have c: "collect_rows ?task completed [] = Inl e"
    using assms(5,6) by (rule collect_rows_uncaught)
  have w: "\<not> min 10 (int (length usernames)) \<le> 0" using assms(2) by (cases usernames) simp_all
  show ?thesis
    using assms(1) last_30_days_window [OF assms(3,4)] c w
    by (simp add: generate_rating_csv_for_top_50_classical_players_def Let_def)
qed

lemma uncaught_iff: "uncaught r = (\<exists>e. r = Inl e \<and> \<not> is_ChessRankingsServiceError e)"
  by (cases r) (simp_all add: uncaught_def)

lemma ratings_2024_03_10:
  "generate_last_30_days_ratings [((2024, 2, 29), 1500)] (2024, 3, 10) =
     Inr (replicate 20 None @ replicate 11 (Some 1500))"
  by code_simp

section \<open>Claims about the bulk export\<close>

text \<open>
  Claim C5, as amended. In the bulk export every \<^verbatim>\<open>ChessRankingsServiceError\<close> raised by a
  player's computation (transport error, missing history, missing category) is caught: when
  no player's computation raises anything else, the export completes for every order of
  completion, its rows are the rows of the submitted usernames, and the row of each player
  whose computation raised is the username followed by 31 absent entries. An exception
  outside that hierarchy is not caught: the export ends, without rows, with the exception
  of the first task in the order of completion that raised one.
\<close>

theorem batch_catches_service_errors:
  assumes "get_top_players_usernames api 50 = Inr usernames" and "usernames \<noteq> []"
    and "valid_date today" and "(1, 1, 31) \<le> today"
    and "mset completed = mset usernames"
  shows "(if \<forall>u \<in> set usernames.
              \<not> uncaught (get_last_30_days_classical_ratings_for_player api today u)
          then \<exists>rows.
                 generate_rating_csv_for_top_50_classical_players api today completed =
                   \<lparr>submitted = usernames, outcome = Inr rows\<rparr> \<and>
                 mset rows =
                   mset (map (row_of (get_last_30_days_classical_ratings_for_player api today))
                           usernames) \<and>
                 (\<forall>u \<in> set usernames. \<forall>e.
                    get_last_30_days_classical_ratings_for_player api today u = Inl e \<longrightarrow>
                    (u, replicate 31 None) \<in> set rows)
          else \<exists>u e.
                 find (\<lambda>u. uncaught (get_last_30_days_classical_ratings_for_player api today u))
                   completed = Some u \<and>
                 get_last_30_days_classical_ratings_for_player api today u = Inl e \<and>
                 \<not> is_ChessRankingsServiceError e \<and>
                 generate_rating_csv_for_top_50_classical_players api today completed =
                   \<lparr>submitted = usernames, outcome = Inl e\<rparr>)"
proof (cases "\<forall>u \<in> set usernames.
                \<not> uncaught (get_last_30_days_classical_ratings_for_player api today u)")
  case True
  let ?task = "get_last_30_days_classical_ratings_for_player api today"
  let ?rows = "sort_rows usernames (map (row_of ?task) completed)"
  have s: "set completed = set usernames" using assms(5) by (rule mset_eq_setD)
  have g: "generate_rating_csv_for_top_50_classical_players api today completed =
             \<lparr>submitted = usernames, outcome = Inr ?rows\<rparr>"
    using assms(1-4)
  proof (rule generate_csv_collected)
    fix u e assume "u \<in> set completed" and e: "?task u = Inl e"
    then have "\<not> uncaught (?task u)" using True s by blast
    with e show "is_ChessRankingsServiceError e" by (simp add: uncaught_def)
  qed
  have m: "mset ?rows = mset (map (row_of ?task) usernames)"
    using assms(5) by (simp add: sort_rows_def)
  have f: "\<forall>u \<in> set usernames. \<forall>e. ?task u = Inl e \<longrightarrow> (u, replicate 31 None) \<in> set ?rows"
  proof (intro ballI allI impI)
    fix u e assume u: "u \<in> set usernames" and e: "?task u = Inl e"
    have "row_of ?task u = (u, replicate 31 None)" using e by (simp add: row_of_def)
    moreover have "row_of ?task u \<in> set (map (row_of ?task) completed)" using u s by simp
    ultimately show "(u, replicate 31 None) \<in> set ?rows" by (simp add: sort_rows_def)
  qed
  from g m f have ex: "\<exists>rows.
                 generate_rating_csv_for_top_50_classical_players api today completed =
                   \<lparr>submitted = usernames, outcome = Inr rows\<rparr> \<and>
                 mset rows = mset (map (row_of ?task) usernames) \<and>
                 (\<forall>u \<in> set usernames. \<forall>e.
                    ?task u = Inl e \<longrightarrow> (u, replicate 31 None) \<in> set rows)"
    by blast
  show ?thesis by (subst if_P [OF True]) (rule ex)
next
  case False
  let ?task = "get_last_30_days_classical_ratings_for_player api today"
  have s: "set completed = set usernames" using assms(5) by (rule mset_eq_setD)
  from False have "\<exists>u \<in> set completed. uncaught (?task u)" using s by blast
  then have "find (\<lambda>u. uncaught (?task u)) completed \<noteq> None"
    by (auto simp: find_None_iff)
  then obtain u where f: "find (\<lambda>u. uncaught (?task u)) completed = Some u" by blast
  then have "uncaught (?task u)" by (auto simp: find_Some_iff)
  then obtain e where e: "?task u = Inl e" and n: "\<not> is_ChessRankingsServiceError e"
    by (auto simp: uncaught_iff)
  have g: "generate_rating_csv_for_top_50_classical_players api today completed =
             \<lparr>submitted = usernames, outcome = Inl e\<rparr>"
    using assms(1-4) f e by (rule generate_csv_aborted)
  from f e n g have ex: "\<exists>u e.
                 find (\<lambda>u. uncaught (?task u)) completed = Some u \<and>
                 ?task u = Inl e \<and>
                 \<not> is_ChessRankingsServiceError e \<and>
                 generate_rating_csv_for_top_50_classical_players api today completed =
                   \<lparr>submitted = usernames, outcome = Inl e\<rparr>"
    by blast
  show ?thesis by (subst if_not_P [OF False]) (rule ex)
qed

theorem batch_catches_service_errors_witness:
  "get_top_players_usernames
     \<lparr>top_players = \<lambda>_. Body (Some \<lparr>get_users =
         Some [\<lparr>get_username = Some ''alice''\<rparr>, \<lparr>get_username = Some ''bob''\<rparr>,
               \<lparr>get_username = Some ''dave''\<rparr>, \<lparr>get_username = Some ''carol''\<rparr>]\<rparr>),
      rating_history = \<lambda>u.
        if u = ''alice'' then RequestFailed
        else if u = ''bob'' then Body None
        else if u = ''dave'' then Body (Some [])
        else Body (Some [\<lparr>get_name = Some ''Classical'', get_points = Some [ [2024, 1, 29, 1500]]\<rparr>])\<rparr> 50
     = Inr [''alice'', ''bob'', ''dave'', ''carol''] \<and>
   valid_date (2024, 3, 10) \<and> (1, 1, 31) \<le> (2024 :: int, 3 :: int, 10 :: int) \<and>
   mset [''carol'', ''dave'', ''alice'', ''bob''] = mset [''alice'', ''bob'', ''dave'', ''carol''] \<and>
   (\<exists>rows.
      generate_rating_csv_for_top_50_classical_players
        \<lparr>top_players = \<lambda>_. Body (Some \<lparr>get_users =
            Some [\<lparr>get_username = Some ''alice''\<rparr>, \<lparr>get_username = Some ''bob''\<rparr>,
                  \<lparr>get_username = Some ''dave''\<rparr>, \<lparr>get_username = Some ''carol''\<rparr>]\<rparr>),
         rating_history = \<lambda>u.
           if u = ''alice'' then RequestFailed
           else if u = ''bob'' then Body None
           else if u = ''dave'' then Body (Some [])
           else Body (Some [\<lparr>get_name = Some ''Classical'', get_points = Some [ [2024, 1, 29, 1500]]\<rparr>])\<rparr>
        (2024, 3, 10) [''carol'', ''dave'', ''alice'', ''bob'']
        = \<lparr>submitted = [''alice'', ''bob'', ''dave'', ''carol''], outcome = Inr rows\<rparr> \<and>
      (''alice'', replicate 31 None) \<in> set rows \<and>
      (''bob'', replicate 31 None) \<in> set rows \<and>
      (''dave'', replicate 31 None) \<in> set rows \<and>
      (''carol'', replicate 20 None @ replicate 11 (Some 1500)) \<in> set rows) \<and>
   get_top_players_usernames
     \<lparr>top_players = \<lambda>_. Body (Some \<lparr>get_users =
         Some [\<lparr>get_username = Some ''alice''\<rparr>, \<lparr>get_username = Some ''bob''\<rparr>]\<rparr>),
      rating_history = \<lambda>u.
        if u = ''alice''
        then Body (Some [\<lparr>get_name = Some ''Classical'', get_points = Some [ [2023, 1, 31, 1500]]\<rparr>])
        else RequestFailed\<rparr> 50
     = Inr [''alice'', ''bob''] \<and>
   mset [''bob'', ''alice''] = mset [''alice'', ''bob''] \<and>
   generate_rating_csv_for_top_50_classical_players
     \<lparr>top_players = \<lambda>_. Body (Some \<lparr>get_users =
         Some [\<lparr>get_username = Some ''alice''\<rparr>, \<lparr>get_username = Some ''bob''\<rparr>]\<rparr>),
      rating_history = \<lambda>u.
        if u = ''alice''
        then Body (Some [\<lparr>get_name = Some ''Classical'', get_points = Some [ [2023, 1, 31, 1500]]\<rparr>])
        else RequestFailed\<rparr>
     (2024, 3, 10) [''bob'', ''alice'']
     = \<lparr>submitted = [''alice'', ''bob''], outcome = Inl ValueError\<rparr>"
proof -
  let ?api = "\<lparr>top_players = \<lambda>_. Body (Some \<lparr>get_users =
         Some [\<lparr>get_username = Some ''alice''\<rparr>, \<lparr>get_username = Some ''bob''\<rparr>,
               \<lparr>get_username = Some ''dave''\<rparr>, \<lparr>get_username = Some ''carol''\<rparr>]\<rparr>),
      rating_history = \<lambda>u.
        if u = ''alice'' then RequestFailed
        else if u = ''bob'' then Body None
        else if u = ''dave'' then Body (Some [])
        else Body (Some [\<lparr>get_name = Some ''Classical'', get_points = Some [ [2024, 1, 29, 1500]]\<rparr>])\<rparr>"
  let ?task = "get_last_30_days_classical_ratings_for_player ?api (2024, 3, 10)"
  let ?us = "[''alice'', ''bob'', ''dave'', ''carol'']"
  let ?done = "[''carol'', ''dave'', ''alice'', ''bob'']"
  have t: "get_top_players_usernames ?api 50 = Inr ?us"
    by (simp add: get_top_players_usernames_def List.map_filter_simps)
  have a: "?task ''alice'' = Inl APIError"
    by (simp add: get_last_30_days_classical_ratings_for_player_def get_player_rating_history_def)
  have b: "?task ''bob'' = Inl (RatingHistoryNotFoundError ''bob'')"
    by (simp add: get_last_30_days_classical_ratings_for_player_def get_player_rating_history_def)
  have d: "?task ''dave'' = Inl (ClassicalRatingNotFoundError ''dave'')"
    by (simp add: get_last_30_days_classical_ratings_for_player_def get_player_rating_history_def)
  have c: "?task ''carol'' = Inr (replicate 20 None @ replicate 11 (Some 1500))"
    by (simp add: get_last_30_days_classical_ratings_for_player_def get_player_rating_history_def
          build_date_to_rating_mapping_def mk_date_def fits_c_int_def days_in_month_def
          is_leap_def ratings_2024_03_10 del: replicate_Suc replicate_append_same)
  have n: "?us \<noteq> []" by simp
  have p: "mset ?done = mset ?us" by simp
  have h: "\<forall>u \<in> set ?us. \<not> uncaught (?task u)"
    by (simp add: a b c d uncaught_def del: replicate_Suc replicate_append_same)
  from batch_catches_service_errors [OF t n valid_2024_03_10 p]
  have "\<exists>rows.
      generate_rating_csv_for_top_50_classical_players ?api (2024, 3, 10) ?done
          = \<lparr>submitted = ?us, outcome = Inr rows\<rparr> \<and>
      mset rows = mset (map (row_of ?task) ?us) \<and>
      (\<forall>u \<in> set ?us. \<forall>e. ?task u = Inl e \<longrightarrow> (u, replicate 31 None) \<in> set rows)"
    unfolding if_P [OF h] .
  then obtain rows where all:
    "generate_rating_csv_for_top_50_classical_players ?api (2024, 3, 10) ?done
          = \<lparr>submitted = ?us, outcome = Inr rows\<rparr> \<and>
     mset rows = mset (map (row_of ?task) ?us) \<and>
     (\<forall>u \<in> set ?us. \<forall>e. ?task u = Inl e \<longrightarrow> (u, replicate 31 None) \<in> set rows)" ..
  from all have g: "generate_rating_csv_for_top_50_classical_players ?api (2024, 3, 10) ?done
          = \<lparr>submitted = ?us, outcome = Inr rows\<rparr>"
    by (rule conjunct1)
  from all have m: "mset rows = mset (map (row_of ?task) ?us)"
    by (elim conjE)
  from all have f: "\<forall>u \<in> set ?us. \<forall>e. ?task u = Inl e \<longrightarrow> (u, replicate 31 None) \<in> set rows"
    by (elim conjE)
  have ra: "(''alice'', replicate 31 None) \<in> set rows" using f a by simp
  have rb: "(''bob'', replicate 31 None) \<in> set rows" using f b by simp
  have rd: "(''dave'', replicate 31 None) \<in> set rows" using f d by simp
  have "set rows = set (map (row_of ?task) ?us)"
    using m by (rule mset_eq_setD)
  then have rc: "(''carol'', replicate 20 None @ replicate 11 (Some 1500)) \<in> set rows"
    using c by (simp add: row_of_def del: replicate_Suc replicate_append_same)
  have ex: "\<exists>rows.
      generate_rating_csv_for_top_50_classical_players ?api (2024, 3, 10) ?done
        = \<lparr>submitted = ?us, outcome = Inr rows\<rparr> \<and>
      (''alice'', replicate 31 None) \<in> set rows \<and>
      (''bob'', replicate 31 None) \<in> set rows \<and>
      (''dave'', replicate 31 None) \<in> set rows \<and>
      (''carol'', replicate 20 None @ replicate 11 (Some 1500)) \<in> set rows"
    using g ra rb rd rc by (intro exI [of _ rows] conjI)
  let ?api2 = "\<lparr>top_players = \<lambda>_. Body (Some \<lparr>get_users =
         Some [\<lparr>get_username = Some ''alice''\<rparr>, \<lparr>get_username = Some ''bob''\<rparr>]\<rparr>),
      rating_history = \<lambda>u.
        if u = ''alice''
        then Body (Some [\<lparr>get_name = Some ''Classical'', get_points = Some [ [2023, 1, 31, 1500]]\<rparr>])
        else RequestFailed\<rparr>"
  let ?task2 = "get_last_30_days_classical_ratings_for_player ?api2 (2024, 3, 10)"
  have t2: "get_top_players_usernames ?api2 50 = Inr [''alice'', ''bob'']"
    by (simp add: get_top_players_usernames_def List.map_filter_simps)
  have a2: "?task2 ''alice'' = Inl ValueError"
    by (simp add: get_last_30_days_classical_ratings_for_player_def get_player_rating_history_def
          build_date_to_rating_mapping_def mk_date_def fits_c_int_def days_in_month_def
          is_leap_def)
  have b2: "?task2 ''bob'' = Inl APIError"
    by (simp add: get_last_30_days_classical_ratings_for_player_def get_player_rating_history_def)
  have n2: "[''alice'', ''bob''] \<noteq> []" by simp
  have p2: "mset [''bob'', ''alice''] = mset [''alice'', ''bob'']" by simp
  have h2: "\<not> (\<forall>u \<in> set [''alice'', ''bob'']. \<not> uncaught (?task2 u))"
    by (simp add: a2 uncaught_def)
  have fd: "find (\<lambda>u. uncaught (?task2 u)) [''bob'', ''alice''] = Some ''alice''"
    by (simp add: a2 b2 uncaught_def)
  from batch_catches_service_errors [OF t2 n2 valid_2024_03_10 p2]
  have "\<exists>u e.
      find (\<lambda>u. uncaught (?task2 u)) [''bob'', ''alice''] = Some u \<and>
      ?task2 u = Inl e \<and> \<not> is_ChessRankingsServiceError e \<and>
      generate_rating_csv_for_top_50_classical_players ?api2 (2024, 3, 10) [''bob'', ''alice'']
        = \<lparr>submitted = [''alice'', ''bob''], outcome = Inl e\<rparr>"
    unfolding if_not_P [OF h2] .
  then obtain u where "\<exists>e.
      find (\<lambda>u. uncaught (?task2 u)) [''bob'', ''alice''] = Some u \<and>
      ?task2 u = Inl e \<and> \<not> is_ChessRankingsServiceError e \<and>
      generate_rating_csv_for_top_50_classical_players ?api2 (2024, 3, 10) [''bob'', ''alice'']
        = \<lparr>submitted = [''alice'', ''bob''], outcome = Inl e\<rparr>" ..
  then obtain e where all2:
     "find (\<lambda>u. uncaught (?task2 u)) [''bob'', ''alice''] = Some u \<and>
      ?task2 u = Inl e \<and> \<not> is_ChessRankingsServiceError e \<and>
      generate_rating_csv_for_top_50_classical_players ?api2 (2024, 3, 10) [''bob'', ''alice'']
        = \<lparr>submitted = [''alice'', ''bob''], outcome = Inl e\<rparr>" ..
  from all2 have "find (\<lambda>u. uncaught (?task2 u)) [''bob'', ''alice''] = Some u"
    by (rule conjunct1)
  with fd have u: "u = ''alice''" by simp
  from all2 have "?task2 u = Inl e" by (elim conjE)
  with u a2 have e: "e = ValueError" by simp
  from all2 have "generate_rating_csv_for_top_50_classical_players ?api2 (2024, 3, 10) [''bob'', ''alice'']
        = \<lparr>submitted = [''alice'', ''bob''], outcome = Inl e\<rparr>"
    by (elim conjE)
  with e have g2: "generate_rating_csv_for_top_50_classical_players ?api2 (2024, 3, 10) [''bob'', ''alice'']
        = \<lparr>submitted = [''alice'', ''bob''], outcome = Inl ValueError\<rparr>"
    by simp
  show ?thesis by (intro conjI) (rule t valid_2024_03_10 p ex t2 p2 g2)+
qed

text \<open>
  The claim as stated fails for a malformed observation: \<^verbatim>\<open>datetime(2023, 2, 31)\<close> raises
  \<^verbatim>\<open>ValueError\<close>, which is not a \<^verbatim>\<open>ChessRankingsServiceError\<close>; \<^verbatim>\<open>future.result()\<close> re-raises it
  past the \<^verbatim>\<open>except\<close> clause and the whole export ends with it, without any row.
\<close>

theorem batch_aborts_on_malformed_observation:
  "get_top_players_usernames
     \<lparr>top_players = \<lambda>_. Body (Some \<lparr>get_users =
         Some [\<lparr>get_username = Some ''alice''\<rparr>, \<lparr>get_username = Some ''bob''\<rparr>]\<rparr>),
      rating_history = \<lambda>u.
        if u = ''alice''
        then Body (Some [\<lparr>get_name = Some ''Classical'', get_points = Some [ [2023, 1, 31, 1500]]\<rparr>])
        else Body (Some [\<lparr>get_name = Some ''Classical'', get_points = Some []\<rparr>])\<rparr> 50
     = Inr [''alice'', ''bob''] \<and>
   get_last_30_days_classical_ratings_for_player
     \<lparr>top_players = \<lambda>_. Body (Some \<lparr>get_users =
         Some [\<lparr>get_username = Some ''alice''\<rparr>, \<lparr>get_username = Some ''bob''\<rparr>]\<rparr>),
      rating_history = \<lambda>u.
        if u = ''alice''
        then Body (Some [\<lparr>get_name = Some ''Classical'', get_points = Some [ [2023, 1, 31, 1500]]\<rparr>])
        else Body (Some [\<lparr>get_name = Some ''Classical'', get_points = Some []\<rparr>])\<rparr>
     (2024, 3, 10) ''alice''
     = Inl ValueError \<and>
   generate_rating_csv_for_top_50_classical_players
     \<lparr>top_players = \<lambda>_. Body (Some \<lparr>get_users =
         Some [\<lparr>get_username = Some ''alice''\<rparr>, \<lparr>get_username = Some ''bob''\<rparr>]\<rparr>),
      rating_history = \<lambda>u.
        if u = ''alice''
        then Body (Some [\<lparr>get_name = Some ''Classical'', get_points = Some [ [2023, 1, 31, 1500]]\<rparr>])
        else Body (Some [\<lparr>get_name = Some ''Classical'', get_points = Some []\<rparr>])\<rparr>
     (2024, 3, 10) [''alice'', ''bob'']
     = \<lparr>submitted = [''alice'', ''bob''], outcome = Inl ValueError\<rparr>"
proof -
  let ?api = "\<lparr>top_players = \<lambda>_. Body (Some \<lparr>get_users =
         Some [\<lparr>get_username = Some ''alice''\<rparr>, \<lparr>get_username = Some ''bob''\<rparr>]\<rparr>),
      rating_history = \<lambda>u.
        if u = ''alice''
        then Body (Some [\<lparr>get_name = Some ''Classical'', get_points = Some [ [2023, 1, 31, 1500]]\<rparr>])
        else Body (Some [\<lparr>get_name = Some ''Classical'', get_points = Some []\<rparr>])\<rparr>"
  have t: "get_top_players_usernames ?api 50 = Inr [''alice'', ''bob'']"
    by (simp add: get_top_players_usernames_def List.map_filter_simps)
  have a: "get_last_30_days_classical_ratings_for_player ?api (2024, 3, 10) ''alice'' = Inl ValueError"
    by (simp add: get_last_30_days_classical_ratings_for_player_def get_player_rating_history_def
          build_date_to_rating_mapping_def mk_date_def fits_c_int_def days_in_month_def
          is_leap_def)
  have g: "generate_rating_csv_for_top_50_classical_players ?api (2024, 3, 10) [''alice'', ''bob'']
     = \<lparr>submitted = [''alice'', ''bob''], outcome = Inl ValueError\<rparr>"
    unfolding generate_rating_csv_for_top_50_classical_players_def t
    by (simp add: window_2024_03_10 a)
  show ?thesis by (intro conjI) (rule t a g)+
qed

text \<open>
  Claim C6, as amended. For every sequence of pairwise distinct usernames and every order of
  completion of the tasks, the rows of the export are in the order of the usernames (when
  no player's computation raises an exception that the export does not catch, so that there
  are rows at all).
\<close>

theorem batch_rows_in_username_order:
  assumes "get_top_players_usernames api 50 = Inr usernames" and "usernames \<noteq> []"
    and "distinct usernames"
    and "valid_date today" and "(1, 1, 31) \<le> today"
    and "mset completed = mset usernames"
    and "\<forall>u \<in> set usernames. \<forall>e.
           get_last_30_days_classical_ratings_for_player api today u = Inl e \<longrightarrow>
           is_ChessRankingsServiceError e"
  shows "\<exists>rows.
           generate_rating_csv_for_top_50_classical_players api today completed =
             \<lparr>submitted = usernames, outcome = Inr rows\<rparr> \<and>
           map fst rows = usernames \<and>
           rows = map (row_of (get_last_30_days_classical_ratings_for_player api today)) usernames"
proof -
  let ?task = "get_last_30_days_classical_ratings_for_player api today"
  have s: "set completed = set usernames" using assms(6) by (rule mset_eq_setD)
  have g: "generate_rating_csv_for_top_50_classical_players api today completed =
             \<lparr>submitted = usernames,
              outcome = Inr (sort_rows usernames (map (row_of ?task) completed))\<rparr>"
    using assms(1,2,4,5)
  proof (rule generate_csv_collected)
    fix u e assume "u \<in> set completed" and "?task u = Inl e"
    then show "is_ChessRankingsServiceError e" using assms(7) s by blast
  qed
  have o: "sort_rows usernames (map (row_of ?task) completed) = map (row_of ?task) usernames"
    using assms(3,6) by (rule sort_rows_restores_order)
  have n: "map fst (map (row_of ?task) usernames) = usernames"
    by (simp add: row_of_def o_def)
  from g o n show ?thesis by simp
qed

theorem batch_rows_in_username_order_witness:
  "get_top_players_usernames
     \<lparr>top_players = \<lambda>_. Body (Some \<lparr>get_users =
         Some [\<lparr>get_username = Some ''alice''\<rparr>, \<lparr>get_username = Some ''bob''\<rparr>,
               \<lparr>get_username = Some ''carol''\<rparr>]\<rparr>),
      rating_history = \<lambda>u.
        if u = ''bob'' then RequestFailed
        else Body (Some [\<lparr>get_name = Some ''Classical'', get_points = Some [ [2024, 1, 29, 1500]]\<rparr>])\<rparr> 50
     = Inr [''alice'', ''bob'', ''carol''] \<and>
   distinct [''alice'', ''bob'', ''carol''] \<and>
   valid_date (2024, 3, 10) \<and> (1, 1, 31) \<le> (2024 :: int, 3 :: int, 10 :: int) \<and>
   mset [''carol'', ''bob'', ''alice''] = mset [''alice'', ''bob'', ''carol''] \<and>
   generate_rating_csv_for_top_50_classical_players
     \<lparr>top_players = \<lambda>_. Body (Some \<lparr>get_users =
         Some [\<lparr>get_username = Some ''alice''\<rparr>, \<lparr>get_username = Some ''bob''\<rparr>,
               \<lparr>get_username = Some ''carol''\<rparr>]\<rparr>),
      rating_history = \<lambda>u.
        if u = ''bob'' then RequestFailed
        else Body (Some [\<lparr>get_name = Some ''Classical'', get_points = Some [ [2024, 1, 29, 1500]]\<rparr>])\<rparr>
     (2024, 3, 10) [''carol'', ''bob'', ''alice'']
     = \<lparr>submitted = [''alice'', ''bob'', ''carol''],
        outcome = Inr [(''alice'', replicate 20 None @ replicate 11 (Some 1500)),
                       (''bob'', replicate 31 None),
                       (''carol'', replicate 20 None @ replicate 11 (Some 1500))]\<rparr>"
proof -
  let ?api = "\<lparr>top_players = \<lambda>_. Body (Some \<lparr>get_users =
         Some [\<lparr>get_username = Some ''alice''\<rparr>, \<lparr>get_username = Some ''bob''\<rparr>,
               \<lparr>get_username = Some ''carol''\<rparr>]\<rparr>),
      rating_history = \<lambda>u.
        if u = ''bob'' then RequestFailed
        else Body (Some [\<lparr>get_name = Some ''Classical'', get_points = Some [ [2024, 1, 29, 1500]]\<rparr>])\<rparr>"
  let ?task = "get_last_30_days_classical_ratings_for_player ?api (2024, 3, 10)"
  have t: "get_top_players_usernames ?api 50 = Inr [''alice'', ''bob'', ''carol'']"
    by (simp add: get_top_players_usernames_def List.map_filter_simps)
  have b: "?task ''bob'' = Inl APIError"
    by (simp add: get_last_30_days_classical_ratings_for_player_def get_player_rating_history_def)
  have c: "\<And>u. u \<noteq> ''bob'' \<Longrightarrow> ?task u = Inr (replicate 20 None @ replicate 11 (Some 1500))"
    by (simp add: get_last_30_days_classical_ratings_for_player_def get_player_rating_history_def
          build_date_to_rating_mapping_def mk_date_def fits_c_int_def days_in_month_def
          is_leap_def
          ratings_2024_03_10 del: replicate_Suc replicate_append_same)
  have n: "[''alice'', ''bob'', ''carol''] \<noteq> []" by simp
  have d: "distinct [''alice'', ''bob'', ''carol'']" by simp
  have p: "mset [''carol'', ''bob'', ''alice''] = mset [''alice'', ''bob'', ''carol'']" by simp
  have h: "\<forall>u \<in> set [''alice'', ''bob'', ''carol'']. \<forall>e. ?task u = Inl e \<longrightarrow> is_ChessRankingsServiceError e"
    by (simp add: b c del: replicate_Suc replicate_append_same)
  from batch_rows_in_username_order [OF t n d valid_2024_03_10 p h] obtain rows where all:
    "generate_rating_csv_for_top_50_classical_players ?api (2024, 3, 10) [''carol'', ''bob'', ''alice'']
          = \<lparr>submitted = [''alice'', ''bob'', ''carol''], outcome = Inr rows\<rparr> \<and>
     map fst rows = [''alice'', ''bob'', ''carol''] \<and>
     rows = map (row_of ?task) [''alice'', ''bob'', ''carol'']" ..
  from all have g: "generate_rating_csv_for_top_50_classical_players ?api (2024, 3, 10) [''carol'', ''bob'', ''alice'']
          = \<lparr>submitted = [''alice'', ''bob'', ''carol''], outcome = Inr rows\<rparr>"
    by (rule conjunct1)
  from all have r: "rows = map (row_of ?task) [''alice'', ''bob'', ''carol'']"
    by (elim conjE)
  have "rows = [(''alice'', replicate 20 None @ replicate 11 (Some 1500)),
                (''bob'', replicate 31 None),
                (''carol'', replicate 20 None @ replicate 11 (Some 1500))]"
    unfolding r using b c [of "''alice''"] c [of "''carol''"]
    by (simp add: row_of_def del: replicate_Suc replicate_append_same)
  with g have g': "generate_rating_csv_for_top_50_classical_players ?api (2024, 3, 10) [''carol'', ''bob'', ''alice'']
     = \<lparr>submitted = [''alice'', ''bob'', ''carol''],
        outcome = Inr [(''alice'', replicate 20 None @ replicate 11 (Some 1500)),
                       (''bob'', replicate 31 None),
                       (''carol'', replicate 20 None @ replicate 11 (Some 1500))]\<rparr>"
    by simp
  show ?thesis by (intro conjI) (rule t d valid_2024_03_10 p g')+
qed

text \<open>
  The claim as stated fails when a username occurs twice: the sort key of a row is the
  last position of its username, so for the usernames alice, bob, alice the rows come out
  as bob, alice, alice.
\<close>

theorem batch_order_with_duplicate_usernames:
  "get_top_players_usernames
     \<lparr>top_players = \<lambda>_. Body (Some \<lparr>get_users =
         Some [\<lparr>get_username = Some ''alice''\<rparr>, \<lparr>get_username = Some ''bob''\<rparr>,
               \<lparr>get_username = Some ''alice''\<rparr>]\<rparr>),
      rating_history = \<lambda>_. RequestFailed\<rparr> 50
     = Inr [''alice'', ''bob'', ''alice''] \<and>
   generate_rating_csv_for_top_50_classical_players
     \<lparr>top_players = \<lambda>_. Body (Some \<lparr>get_users =
         Some [\<lparr>get_username = Some ''alice''\<rparr>, \<lparr>get_username = Some ''bob''\<rparr>,
               \<lparr>get_username = Some ''alice''\<rparr>]\<rparr>),
      rating_history = \<lambda>_. RequestFailed\<rparr>
     (2024, 3, 10) [''alice'', ''bob'', ''alice'']
     = \<lparr>submitted = [''alice'', ''bob'', ''alice''],
        outcome = Inr [(''bob'', replicate 31 None), (''alice'', replicate 31 None),
                       (''alice'', replicate 31 None)]\<rparr> \<and>
   map fst [(''bob'', replicate 31 (None :: int option)), (''alice'', replicate 31 None),
            (''alice'', replicate 31 None)]
     \<noteq> [''alice'', ''bob'', ''alice'']"
proof -
  let ?api = "\<lparr>top_players = \<lambda>_. Body (Some \<lparr>get_users =
         Some [\<lparr>get_username = Some ''alice''\<rparr>, \<lparr>get_username = Some ''bob''\<rparr>,
               \<lparr>get_username = Some ''alice''\<rparr>]\<rparr>),
      rating_history = \<lambda>_. RequestFailed\<rparr>"
  have t: "get_top_players_usernames ?api 50 = Inr [''alice'', ''bob'', ''alice'']"
    by (simp add: get_top_players_usernames_def List.map_filter_simps)
  have a: "\<And>u. get_last_30_days_classical_ratings_for_player ?api (2024, 3, 10) u = Inl APIError"
    by (simp add: get_last_30_days_classical_ratings_for_player_def get_player_rating_history_def)
  have o: "username_order [''alice'', ''bob'', ''alice''] = [''alice'' \<mapsto> 2, ''bob'' \<mapsto> 1]"
    by (auto simp: username_order_def enumerate_Suc_eq fun_eq_iff)
  have g: "generate_rating_csv_for_top_50_classical_players ?api (2024, 3, 10)
             [''alice'', ''bob'', ''alice'']
     = \<lparr>submitted = [''alice'', ''bob'', ''alice''],
        outcome = Inr [(''bob'', replicate 31 None), (''alice'', replicate 31 None),
                       (''alice'', replicate 31 None)]\<rparr>"
    unfolding generate_rating_csv_for_top_50_classical_players_def t
    by (simp add: window_2024_03_10 a sort_rows_def o)
  have n: "map fst [(''bob'', replicate 31 (None :: int option)), (''alice'', replicate 31 None),
            (''alice'', replicate 31 None)] \<noteq> [''alice'', ''bob'', ''alice'']"
    by simp
  show ?thesis by (intro conjI) (rule t g n)+
qed

end
